theory Spec2Isabelle
  imports Complex_Main
begin

section \<open>Heatmap targets and losses of the RSNA 2024 pipeline\<close>

text \<open>
  The development embeds two source files: the key-point dataset module
  (\<^verbatim>\<open>rsna2024_keypoint_dataset.py\<close>) and the loss module (\<^verbatim>\<open>loss.py\<close>).
  Python and NumPy floats are idealised as real numbers; the one float value that
  steers control flow in the embedded code, NaN, is kept as \<open>None\<close> of
  \<open>real option\<close>. Rounding error, overflow and underflow are not part of the model.
  Every \<^verbatim>\<open>raise\<close>, failed \<^verbatim>\<open>assert\<close> and library exception is a value
  \<open>Inl e\<close> of a sum type.
\<close>

datatype py_error = AssertionError | IndexError | KeyError | ValueError
  | ZeroDivisionError | RuntimeError | TypeError | AttributeError | LibraryError

type_synonym pyfloat = "real option"

subsection \<open>The Gaussian radius\<close>

text \<open>
  \<^verbatim>\<open>np.sqrt\<close> of a negative number is NaN (with a warning), not an exception.
\<close>

definition np_sqrt :: "real \<Rightarrow> pyfloat" where
  "np_sqrt v = (if v < 0 then None else Some (sqrt v))"

text \<open>
  Python's \<^verbatim>\<open>min(r1, r2, r3)\<close> keeps the first argument and replaces it by a
  later one only when \<^verbatim>\<open>later < kept\<close> is true; every comparison with NaN is false.
\<close>

definition fl_lt :: "pyfloat \<Rightarrow> pyfloat \<Rightarrow> bool" where
  "fl_lt p q = (case p of None \<Rightarrow> False
                | Some u \<Rightarrow> (case q of None \<Rightarrow> False | Some v \<Rightarrow> u < v))"

definition py_min3 :: "pyfloat \<Rightarrow> pyfloat \<Rightarrow> pyfloat \<Rightarrow> pyfloat" where
  "py_min3 p q r =
     (let best = p;
          best = (if fl_lt q best then q else best);
          best = (if fl_lt r best then r else best)
      in best)"

text \<open>The coefficients \<open>(a, b, c)\<close> that \<^verbatim>\<open>gaussian_radius\<close> sets for its three cases.\<close>

definition coeffs1 :: "real \<times> real \<Rightarrow> real \<Rightarrow> real \<times> real \<times> real" where
  "coeffs1 det_size min_overlap =
     (case det_size of (height, width) \<Rightarrow>
        (1, height + width, width * height * (1 - min_overlap) / (1 + min_overlap)))"

definition coeffs2 :: "real \<times> real \<Rightarrow> real \<Rightarrow> real \<times> real \<times> real" where
  "coeffs2 det_size min_overlap =
     (case det_size of (height, width) \<Rightarrow>
        (4, 2 * (height + width), (1 - min_overlap) * width * height))"

definition coeffs3 :: "real \<times> real \<Rightarrow> real \<Rightarrow> real \<times> real \<times> real" where
  "coeffs3 det_size min_overlap =
     (case det_size of (height, width) \<Rightarrow>
        (4 * min_overlap, - 2 * min_overlap * (height + width),
         (min_overlap - 1) * width * height))"

text \<open>
  Each case computes \<^verbatim>\<open>sq = np.sqrt(b ** 2 - 4 * a * c)\<close> and
  \<^verbatim>\<open>r = (b + sq) / 2\<close>: the divisor is the literal 2 in all three cases.
\<close>

definition half_sum :: "real \<Rightarrow> pyfloat \<Rightarrow> pyfloat" where
  "half_sum b sq = map_option (\<lambda>s. (b + s) / 2) sq"

definition case_radius :: "real \<times> real \<times> real \<Rightarrow> pyfloat" where
  "case_radius abc =
     (case abc of (a, b, c) \<Rightarrow> half_sum b (np_sqrt (b ^ 2 - 4 * a * c)))"

text \<open>
  The division by \<^verbatim>\<open>1 + min_overlap\<close> in \<open>c1\<close> is a division of Python floats, which
  raises at zero.
\<close>

definition gaussian_radius :: "real \<times> real \<Rightarrow> real \<Rightarrow> py_error + pyfloat" where
  "gaussian_radius det_size min_overlap =
     (if 1 + min_overlap = 0 then Inl ZeroDivisionError
      else Inr (py_min3 (case_radius (coeffs1 det_size min_overlap))
                        (case_radius (coeffs2 det_size min_overlap))
                        (case_radius (coeffs3 det_size min_overlap))))"

text \<open>
  What it means for \<open>r\<close> to solve the quadratic with coefficients \<open>(a, b, c)\<close>, under
  either sign convention for the linear term.
\<close>

definition is_root :: "real \<times> real \<times> real \<Rightarrow> real \<Rightarrow> bool" where
  "is_root abc r =
     (case abc of (a, b, c) \<Rightarrow> a * r ^ 2 + b * r + c = 0 \<or> a * r ^ 2 - b * r + c = 0)"

text \<open>Closed forms of the three case radii, used in the proofs below.\<close>

definition plus_form :: "real \<Rightarrow> real \<Rightarrow> real \<Rightarrow> real" where
  "plus_form k h w = (h + w) + sqrt ((h + w)^2 - 4 * k * w * h)"

definition minus_form :: "real \<Rightarrow> real \<Rightarrow> real \<Rightarrow> real" where
  "minus_form m h w = sqrt (m^2 * (h + w)^2 + 4 * m * (1 - m) * w * h) - m * (h + w)"

subsection \<open>Selecting neighbouring slices\<close>

text \<open>
  \<^verbatim>\<open>np.linspace(start, stop, num)\<close> with the default \<^verbatim>\<open>endpoint=True\<close>: a negative
  \<open>num\<close> raises; otherwise the samples are \<open>i * step + start\<close> with
  \<open>step = (stop - start) / (num - 1)\<close> (for \<open>num = 1\<close> the only sample is \<open>start\<close>),
  and for \<open>num > 1\<close> the last sample is overwritten by \<open>stop\<close>.
\<close>

definition np_linspace :: "real \<Rightarrow> real \<Rightarrow> int \<Rightarrow> py_error + real list" where
  "np_linspace start stop num =
     (if num < 0 then Inl ValueError
      else
        let dv = num - 1;
            delta = stop - start;
            y = map (\<lambda>i. (if 0 < dv then real i * (delta / of_int dv) else real i * delta) + start)
                  [0..<nat num]
        in Inr (if 1 < num then y[nat num - 1 := stop] else y))"

text \<open>\<^verbatim>\<open>.astype(int)\<close> truncates towards zero.\<close>

definition py_trunc :: "real \<Rightarrow> int" where
  "py_trunc v = (if 0 \<le> v then \<lfloor>v\<rfloor> else \<lceil>v\<rceil>)"

text \<open>\<^verbatim>\<open>np.clip(a, lo, hi)\<close> is \<^verbatim>\<open>minimum(maximum(a, lo), hi)\<close>.\<close>

definition np_clip :: "int \<Rightarrow> int \<Rightarrow> int \<Rightarrow> int" where
  "np_clip v lo hi = min (max v lo) hi"

text \<open>
  Indexing an array by an integer array: an index outside \<open>[-L, L)\<close> raises, a
  negative one counts from the end.
\<close>

definition np_take :: "'a list \<Rightarrow> int list \<Rightarrow> py_error + 'a list" where
  "np_take lst indices =
     (let l = int (length lst)
      in if list_all (\<lambda>j. - l \<le> j \<and> j < l) indices
         then Inr (map (\<lambda>j. lst ! nat (if j < 0 then j + l else j)) indices)
         else Inl IndexError)"

text \<open>The index vector of \<^verbatim>\<open>_select_n_elements\<close>, after the clip.\<close>

definition select_indices :: "nat \<Rightarrow> int \<Rightarrow> int \<Rightarrow> py_error + int list" where
  "select_indices len n base_index =
     (let offset = n div 2
      in case np_linspace (of_int (base_index - offset)) (of_int (base_index + offset)) n of
           Inl e \<Rightarrow> Inl e
         | Inr ys \<Rightarrow> Inr (map (\<lambda>v. np_clip (py_trunc v) 0 (int len - 1)) ys))"

definition select_n_elements :: "'a list \<Rightarrow> int \<Rightarrow> int \<Rightarrow> py_error + 'a list" where
  "select_n_elements lst n base_index =
     (case select_indices (length lst) n base_index of
        Inl e \<Rightarrow> Inl e
      | Inr indices \<Rightarrow> np_take lst indices)"

subsection \<open>Two-dimensional arrays and the Gaussian stamp\<close>

text \<open>
  A two-dimensional NumPy array: its shape and its rows. An array is well formed when
  the rows agree with the shape; a shape with zero rows still has a column count.
\<close>

record array2 =
  nrows :: nat
  ncols :: nat
  cells :: "real list list"

definition wf_array :: "array2 \<Rightarrow> bool" where
  "wf_array a = (length (cells a) = nrows a \<and> list_all (\<lambda>row. length row = ncols a) (cells a))"

definition tabulate2 :: "nat \<Rightarrow> nat \<Rightarrow> (nat \<Rightarrow> nat \<Rightarrow> real) \<Rightarrow> real list list" where
  "tabulate2 h w f = map (\<lambda>i. map (\<lambda>j. f i j) [0..<w]) [0..<h]"

definition np_zeros :: "nat \<Rightarrow> nat \<Rightarrow> array2" where
  "np_zeros h w = \<lparr>nrows = h, ncols = w, cells = replicate h (replicate w 0)\<rparr>"

text \<open>
  \<^verbatim>\<open>np.ogrid[lo:hi]\<close> with the default step 1: the values \<open>lo, lo + 1, \<dots>\<close> below \<open>hi\<close>.
\<close>

definition np_ogrid :: "real \<Rightarrow> real \<Rightarrow> real list" where
  "np_ogrid lo hi = map (\<lambda>i. lo + real i) [0..<nat \<lceil>hi - lo\<rceil>]"

text \<open>\<^verbatim>\<open>np.finfo(np.float64).eps\<close>\<close>

definition float_eps :: real where
  "float_eps = 1 / 2 ^ 52"

text \<open>
  \<^verbatim>\<open>gaussian2D\<close>: the kernel \<open>exp (- (x\<^sup>2 + y\<^sup>2) / (2 \<sigma>\<^sup>2))\<close> on the grid, entries below
  \<open>eps * max\<close> set to zero. \<^verbatim>\<open>h.max()\<close> of an array without entries raises.
\<close>

definition gaussian2D :: "int \<times> int \<Rightarrow> real \<Rightarrow> py_error + array2" where
  "gaussian2D shape sigma =
     (case shape of (s0, s1) \<Rightarrow>
        let m = (of_int s0 - 1) / 2;
            n = (of_int s1 - 1) / 2;
            ys = np_ogrid (- m) (m + 1);
            xs = np_ogrid (- n) (n + 1);
            h = map (\<lambda>y. map (\<lambda>x. exp (- (x * x + y * y) / (2 * sigma * sigma))) xs) ys
        in if concat h = [] then Inl ValueError
           else
             let mx = Max (set (concat h))
             in Inr \<lparr>nrows = length ys, ncols = length xs,
                     cells = map (map (\<lambda>v. if v < float_eps * mx then 0 else v)) h\<rparr>)"

text \<open>Python's \<^verbatim>\<open>round\<close> of a float to an integer rounds halves to the even neighbour.\<close>

definition py_round :: "real \<Rightarrow> int" where
  "py_round v =
     (let f = \<lfloor>v\<rfloor>; d = v - of_int f
      in if d < 1 / 2 then f else if 1 / 2 < d then f + 1 else if even f then f else f + 1)"

text \<open>
  The index range \<open>[lo, hi)\<close> that the slice \<^verbatim>\<open>start:stop\<close> denotes on an axis of the
  given length: a negative bound counts from the end, and both bounds are then cut to
  the axis. An empty slice has \<open>lo = hi\<close>.
\<close>

definition py_slice :: "int \<Rightarrow> int \<Rightarrow> nat \<Rightarrow> nat \<times> nat" where
  "py_slice start stop len =
     (let l = int len;
          lo = (if start < 0 then max (start + l) 0 else min start l);
          hi = (if stop < 0 then max (stop + l) 0 else min stop l)
      in (nat lo, nat (max lo hi)))"

definition extent :: "nat \<times> nat \<Rightarrow> nat" where
  "extent s = snd s - fst s"

text \<open>
  \<^verbatim>\<open>np.maximum(masked_heatmap, masked_gaussian * k, out=masked_heatmap)\<close>, where
  \<^verbatim>\<open>masked_heatmap\<close> is the view \<open>hr \<times> hc\<close> of the heat map and \<^verbatim>\<open>masked_gaussian\<close>
  the view \<open>gr \<times> gc\<close> of the kernel (both non-empty): on each axis the kernel view must
  have the extent of the heat-map view or extent 1 (it is then broadcast); otherwise
  the call raises. Writing through the view changes the heat map in place.
\<close>

definition np_maximum_out ::
  "array2 \<Rightarrow> nat \<times> nat \<Rightarrow> nat \<times> nat \<Rightarrow> array2 \<Rightarrow> nat \<times> nat \<Rightarrow> nat \<times> nat \<Rightarrow> real
     \<Rightarrow> py_error + array2" where
  "np_maximum_out heatmap hr hc gaussian gr gc k =
     (if (extent gr = extent hr \<or> extent gr = 1) \<and> (extent gc = extent hc \<or> extent gc = 1)
      then Inr (heatmap\<lparr>cells :=
        tabulate2 (nrows heatmap) (ncols heatmap)
          (\<lambda>i j. if fst hr \<le> i \<and> i < snd hr \<and> fst hc \<le> j \<and> j < snd hc
                 then max (cells heatmap ! i ! j)
                        (cells gaussian
                           ! (fst gr + (if extent gr = 1 then 0 else i - fst hr))
                           ! (fst gc + (if extent gc = 1 then 0 else j - fst hc)) * k)
                 else cells heatmap ! i ! j)\<rparr>)
      else Inl ValueError)"

definition draw_gaussian :: "array2 \<Rightarrow> real \<times> real \<Rightarrow> int \<Rightarrow> real \<Rightarrow> py_error + array2" where
  "draw_gaussian heatmap center radius k =
     (let diameter = 2 * radius + 1
      in case gaussian2D (diameter, diameter) (of_int diameter / 6) of
           Inl e \<Rightarrow> Inl e
         | Inr gaussian \<Rightarrow>
             let x = py_round (fst center);
                 y = py_round (snd center);
                 height = int (nrows heatmap);
                 width = int (ncols heatmap);
                 left = min x radius;
                 right = min (width - x) (radius + 1);
                 top = min y radius;
                 bottom = min (height - y) (radius + 1);
                 hr = py_slice (y - top) (y + bottom) (nrows heatmap);
                 hc = py_slice (x - left) (x + right) (ncols heatmap);
                 gr = py_slice (radius - top) (radius + bottom) (nrows gaussian);
                 gc = py_slice (radius - left) (radius + right) (ncols gaussian)
             in if 0 < min (extent gr) (extent gc) \<and> 0 < min (extent hr) (extent hc)
                then np_maximum_out heatmap hr hc gaussian gr gc k
                else Inr heatmap)"

text \<open>
  The destination rectangle \<^verbatim>\<open>heatmap[y - top : y + bottom, x - left : x + right]\<close> of
  \<^verbatim>\<open>draw_gaussian\<close>, as the integer bounds
  \<open>(y - top, y + bottom, x - left, x + right)\<close> the source computes.
\<close>

definition stamp_rect :: "array2 \<Rightarrow> real \<times> real \<Rightarrow> int \<Rightarrow> int \<times> int \<times> int \<times> int" where
  "stamp_rect heatmap center radius =
     (let x = py_round (fst center);
          y = py_round (snd center);
          height = int (nrows heatmap);
          width = int (ncols heatmap);
          left = min x radius;
          right = min (width - x) (radius + 1);
          top = min y radius;
          bottom = min (height - y) (radius + 1)
      in (y - top, y + bottom, x - left, x + right))"

definition in_rect :: "int \<times> int \<times> int \<times> int \<Rightarrow> nat \<Rightarrow> nat \<Rightarrow> bool" where
  "in_rect rect i j =
     (case rect of (r0, r1, c0, c1) \<Rightarrow> r0 \<le> int i \<and> int i < r1 \<and> c0 \<le> int j \<and> int j < c1)"

text \<open>The rectangle is empty on either axis.\<close>

definition rect_empty :: "int \<times> int \<times> int \<times> int \<Rightarrow> bool" where
  "rect_empty rect = (case rect of (r0, r1, c0, c1) \<Rightarrow> r1 \<le> r0 \<or> c1 \<le> c0)"

text \<open>Every cell of the array lies in \<open>[0, 1]\<close>.\<close>

definition unit_cells :: "array2 \<Rightarrow> bool" where
  "unit_cells a = (\<forall>i < nrows a. \<forall>j < ncols a. 0 \<le> cells a ! i ! j \<and> cells a ! i ! j \<le> 1)"

text \<open>
  Auxiliary notions for the proofs about \<^verbatim>\<open>draw_gaussian\<close>: the four slices of a call
  (rows and columns of the heat-map view, rows and columns of the kernel view), the
  guard of the \<^verbatim>\<open>if\<close>, the update through the views, and the value a cell receives
  when the two views have the same extents.
\<close>

definition views :: "nat \<Rightarrow> nat \<Rightarrow> real \<times> real \<Rightarrow> int \<Rightarrow> nat \<Rightarrow> nat
    \<Rightarrow> (nat \<times> nat) \<times> (nat \<times> nat) \<times> (nat \<times> nat) \<times> (nat \<times> nat)" where
  "views h w center radius gh gw =
     (let x = py_round (fst center);
          y = py_round (snd center);
          left = min x radius;
          right = min (int w - x) (radius + 1);
          top = min y radius;
          bottom = min (int h - y) (radius + 1)
      in (py_slice (y - top) (y + bottom) h,
          py_slice (x - left) (x + right) w,
          py_slice (radius - top) (radius + bottom) gh,
          py_slice (radius - left) (radius + right) gw))"

definition guard :: "(nat \<times> nat) \<times> (nat \<times> nat) \<times> (nat \<times> nat) \<times> (nat \<times> nat) \<Rightarrow> bool" where
  "guard v = (case v of (hr, hc, gr, gc) \<Rightarrow>
      0 < min (extent gr) (extent gc) \<and> 0 < min (extent hr) (extent hc))"

definition apply_views :: "array2 \<Rightarrow> array2 \<Rightarrow> real
    \<Rightarrow> (nat \<times> nat) \<times> (nat \<times> nat) \<times> (nat \<times> nat) \<times> (nat \<times> nat) \<Rightarrow> py_error + array2" where
  "apply_views hm g k v = (case v of (hr, hc, gr, gc) \<Rightarrow> np_maximum_out hm hr hc g gr gc k)"

definition stamp_value :: "array2 \<Rightarrow> array2 \<Rightarrow> nat \<times> nat \<Rightarrow> nat \<times> nat \<Rightarrow> nat \<times> nat
    \<Rightarrow> nat \<times> nat \<Rightarrow> real \<Rightarrow> nat \<Rightarrow> nat \<Rightarrow> real" where
  "stamp_value hm g hr hc gr gc k i j =
     (if fst hr \<le> i \<and> i < snd hr \<and> fst hc \<le> j \<and> j < snd hc
      then max (cells hm ! i ! j)
             (cells g ! (fst gr + (i - fst hr)) ! (fst gc + (j - fst hc)) * k)
      else cells hm ! i ! j)"

subsection \<open>The key-point datasets\<close>

text \<open>
  The five disc levels, in the order both \<^verbatim>\<open>__getitem__\<close> methods iterate over them, and
  the dictionary \<^verbatim>\<open>self._labels\<close> from level name to heat-map channel.
\<close>

definition level_names :: "string list" where
  "level_names = [''L1/L2'', ''L2/L3'', ''L3/L4'', ''L4/L5'', ''L5/S1'']"

definition labels_index :: "string \<Rightarrow> nat option" where
  "labels_index =
     map_of [(''L1/L2'', 0), (''L2/L3'', 1), (''L3/L4'', 2), (''L4/L5'', 3), (''L5/S1'', 4)]"

text \<open>
  A row of the annotation table. The coordinate columns (\<^verbatim>\<open><level>_x\<close>, \<^verbatim>\<open><level>_nx\<close>,
  \<dots>) are looked up by name; a missing column raises \<^verbatim>\<open>KeyError\<close>.
\<close>

record row =
  study_id :: int
  png_path :: string
  image_dir :: string
  instance_number :: int
  columns :: "string \<Rightarrow> real option"

text \<open>\<^verbatim>\<open>train_df.iloc[idx]\<close>: a negative position counts from the end.\<close>

definition iloc :: "row list \<Rightarrow> int \<Rightarrow> py_error + row" where
  "iloc df idx =
     (let n = int (length df); j = (if idx < 0 then n + idx else idx)
      in if 0 \<le> j \<and> j < n then Inr (df ! nat j) else Inl IndexError)"

type_synonym keypoint = "real \<times> real"

text \<open>
  The augmentation transform is an external collaborator: it takes the image, the key
  points and their labels and returns all three transformed (or raises).
\<close>

type_synonym 'img transform =
  "'img \<Rightarrow> keypoint list \<Rightarrow> string list \<Rightarrow> py_error + 'img \<times> keypoint list \<times> string list"

text \<open>
  What the datasets use of OpenCV, NumPy, the file system and Python's \<^verbatim>\<open>int\<close>, taken
  as parameters. Images are an abstract type; only their height and width matter here.
  \<^item> \<open>imread_gray\<close>: \<^verbatim>\<open>cv2.imread(path, cv2.IMREAD_GRAYSCALE)\<close>, \<open>None\<close> when the file
    cannot be read;
  \<^item> \<open>resize_fixed\<close>: \<^verbatim>\<open>cv2.resize(image, dsize=(512, 512), \<dots>)\<close>;
  \<^item> \<open>as_uint8\<close>: \<^verbatim>\<open>image.astype(np.uint8)\<close>;
  \<^item> \<open>shape_hw\<close>: \<^verbatim>\<open>image.shape[:2]\<close>;
  \<^item> \<open>np_stack_last\<close>: \<^verbatim>\<open>np.stack(images, axis=-1)\<close>;
  \<^item> \<open>as_float_chw\<close>: the final \<^verbatim>\<open>astype(np.float32)\<close> and the move of the channel
    axis to the front;
  \<^item> \<open>sorted_iterdir\<close>: \<^verbatim>\<open>sorted(image_dir.iterdir())\<close>, as POSIX path strings;
  \<^item> \<open>path_stem\<close>: \<^verbatim>\<open>Path.stem\<close>;
  \<^item> \<open>int_of_str\<close>: \<^verbatim>\<open>int(s)\<close>, \<open>None\<close> when it raises \<^verbatim>\<open>ValueError\<close>.
\<close>

record 'img env =
  imread_gray :: "string \<Rightarrow> 'img option"
  resize_fixed :: "'img \<Rightarrow> 'img"
  as_uint8 :: "'img \<Rightarrow> 'img"
  shape_hw :: "'img \<Rightarrow> nat \<times> nat"
  np_stack_last :: "'img list \<Rightarrow> py_error + 'img"
  as_float_chw :: "'img \<Rightarrow> 'img"
  sorted_iterdir :: "string \<Rightarrow> py_error + string list"
  path_stem :: "string \<Rightarrow> string"
  int_of_str :: "string \<Rightarrow> int option"

record 'img dataset_v1 =
  image_root :: string
  train_df :: "row list"
  transform :: "'img transform option"
  heatmap_size :: "int \<times> int"
  stride :: int

record 'img dataset_v2 = "'img dataset_v1" +
  num_slices :: int
  use_center :: bool

text \<open>The constructor of the multi-slice dataset rejects an even \<^verbatim>\<open>num_slices\<close>.\<close>

definition init_v2 ::
  "string \<Rightarrow> row list \<Rightarrow> 'img transform option \<Rightarrow> int \<times> int \<Rightarrow> int \<Rightarrow> bool \<Rightarrow> int
     \<Rightarrow> py_error + 'img dataset_v2" where
  "init_v2 img_root df tr hm_size n center strd =
     (if n mod 2 = 0 then Inl ValueError
      else Inr \<lparr>image_root = img_root, train_df = df, transform = tr, heatmap_size = hm_size,
                stride = strd, num_slices = n, use_center = center\<rparr>)"

definition path_join :: "string \<Rightarrow> string \<Rightarrow> string" where
  "path_join img_root rel = img_root @ ''/'' @ rel"

text \<open>\<^verbatim>\<open>_read_image\<close> of the single-slice dataset; \<^verbatim>\<open>None.astype\<close> raises.\<close>

definition read_image_v1 :: "'img env \<Rightarrow> string \<Rightarrow> py_error + 'img" where
  "read_image_v1 env image_path =
     (case imread_gray env image_path of
        None \<Rightarrow> Inl AttributeError
      | Some img \<Rightarrow> Inr (as_uint8 env img))"

text \<open>
  \<^verbatim>\<open>_read_image\<close> of the multi-slice dataset, always called with the default
  \<^verbatim>\<open>image_size=(512, 512)\<close>; \<^verbatim>\<open>cv2.resize(None, \<dots>)\<close> raises.
\<close>

definition read_image_v2 :: "'img env \<Rightarrow> string \<Rightarrow> py_error + 'img" where
  "read_image_v2 env image_path =
     (case imread_gray env image_path of
        None \<Rightarrow> Inl LibraryError
      | Some img \<Rightarrow> Inr (as_uint8 env (resize_fixed env img)))"

fun read_images :: "'img env \<Rightarrow> string list \<Rightarrow> py_error + 'img list" where
  "read_images env [] = Inr []"
| "read_images env (image_path # rest) =
     (case read_image_v2 env image_path of
        Inl e \<Rightarrow> Inl e
      | Inr img \<Rightarrow>
          (case read_images env rest of Inl e \<Rightarrow> Inl e | Inr images \<Rightarrow> Inr (img # images)))"

text \<open>
  The loop over the five levels of the single-slice dataset: absolute coordinates,
  rounded.
\<close>

fun keypoints_v1 :: "row \<Rightarrow> string list \<Rightarrow> py_error + keypoint list \<times> string list" where
  "keypoints_v1 target_row [] = Inr ([], [])"
| "keypoints_v1 target_row (segment # rest) =
     (case columns target_row (segment @ ''_x'') of
        None \<Rightarrow> Inl KeyError
      | Some vx \<Rightarrow>
          (case columns target_row (segment @ ''_y'') of
             None \<Rightarrow> Inl KeyError
           | Some vy \<Rightarrow>
               (case keypoints_v1 target_row rest of
                  Inl e \<Rightarrow> Inl e
                | Inr (keypoints, class_labels) \<Rightarrow>
                    Inr ((of_int (py_round vx), of_int (py_round vy)) # keypoints,
                         segment # class_labels))))"

text \<open>The same loop of the multi-slice dataset: normalised coordinates, as they are.\<close>

fun keypoints_v2 :: "row \<Rightarrow> string list \<Rightarrow> py_error + keypoint list \<times> string list" where
  "keypoints_v2 target_row [] = Inr ([], [])"
| "keypoints_v2 target_row (segment # rest) =
     (case columns target_row (segment @ ''_nx'') of
        None \<Rightarrow> Inl KeyError
      | Some vx \<Rightarrow>
          (case columns target_row (segment @ ''_ny'') of
             None \<Rightarrow> Inl KeyError
           | Some vy \<Rightarrow>
               (case keypoints_v2 target_row rest of
                  Inl e \<Rightarrow> Inl e
                | Inr (norm_keypoints, class_labels) \<Rightarrow>
                    Inr ((vx, vy) # norm_keypoints, segment # class_labels))))"

definition apply_transform ::
  "'img transform option \<Rightarrow> 'img \<Rightarrow> keypoint list \<Rightarrow> string list
     \<Rightarrow> py_error + 'img \<times> keypoint list \<times> string list" where
  "apply_transform tr img keypoints class_labels =
     (case tr of
        None \<Rightarrow> Inr (img, keypoints, class_labels)
      | Some f \<Rightarrow> f img keypoints class_labels)"

text \<open>
  \<^verbatim>\<open>radius = max(0, int(gaussian_radius([s // stride for s in heatmap_size])))\<close>, with
  the default \<^verbatim>\<open>min_overlap = 0.7\<close>; \<^verbatim>\<open>int\<close> of NaN raises.
\<close>

definition heatmap_radius :: "int \<times> int \<Rightarrow> int \<Rightarrow> py_error + int" where
  "heatmap_radius hm_size strd =
     (if strd = 0 then Inl ZeroDivisionError
      else
        case gaussian_radius (of_int (fst hm_size div strd), of_int (snd hm_size div strd)) (7 / 10) of
          Inl e \<Rightarrow> Inl e
        | Inr None \<Rightarrow> Inl ValueError
        | Inr (Some radius) \<Rightarrow> Inr (max 0 (py_trunc radius)))"

text \<open>
  The stamping loop over \<^verbatim>\<open>zip(keypoints, class_labels)\<close>: the channel of the label is
  stamped in place at the key point divided by the stride.
\<close>

fun stamp_all :: "int \<Rightarrow> int \<Rightarrow> (keypoint \<times> string) list \<Rightarrow> array2 list \<Rightarrow> py_error + array2 list" where
  "stamp_all strd radius [] heatmap = Inr heatmap"
| "stamp_all strd radius ((keypoint, class_label) # rest) heatmap =
     (case labels_index class_label of
        None \<Rightarrow> Inl KeyError
      | Some index \<Rightarrow>
          (case draw_gaussian (heatmap ! index)
                  (fst keypoint / of_int strd, snd keypoint / of_int strd) radius 1 of
             Inl e \<Rightarrow> Inl e
           | Inr channel \<Rightarrow> stamp_all strd radius rest (heatmap[index := channel])))"

text \<open>
  The heat-map block shared by both \<^verbatim>\<open>__getitem__\<close> methods, from
  \<^verbatim>\<open>h, w = image.shape[:2]\<close> to the end of the stamping loop. \<^verbatim>\<open>np.zeros\<close> raises on
  a negative dimension.
\<close>

definition make_heatmap ::
  "int \<Rightarrow> int \<times> int \<Rightarrow> nat \<times> nat \<Rightarrow> keypoint list \<Rightarrow> string list \<Rightarrow> py_error + array2 list" where
  "make_heatmap strd hm_size hw keypoints class_labels =
     (case hw of (h, w) \<Rightarrow>
        if strd = 0 then Inl ZeroDivisionError
        else if int h div strd < 0 \<or> int w div strd < 0 then Inl ValueError
        else
          case heatmap_radius hm_size strd of
            Inl e \<Rightarrow> Inl e
          | Inr radius \<Rightarrow>
              stamp_all strd radius (zip keypoints class_labels)
                (replicate 5 (np_zeros (nat (int h div strd)) (nat (int w div strd)))))"

text \<open>The returned key-point list: the sentinel \<open>(-1, -1)\<close>, overwritten per label.\<close>

fun fill_keypoints :: "(keypoint \<times> string) list \<Rightarrow> keypoint list \<Rightarrow> py_error + keypoint list" where
  "fill_keypoints [] ret_keypoints = Inr ret_keypoints"
| "fill_keypoints ((keypoint, class_label) # rest) ret_keypoints =
     (case labels_index class_label of
        None \<Rightarrow> Inl KeyError
      | Some index \<Rightarrow> fill_keypoints rest (ret_keypoints[index := keypoint]))"

text \<open>
  The common tail of both \<^verbatim>\<open>__getitem__\<close> methods, from the heat-map block to the
  \<^verbatim>\<open>return\<close>, given the image, key points and labels that the transform returned.
\<close>

definition encode_example ::
  "'img env \<Rightarrow> int \<Rightarrow> int \<times> int \<Rightarrow> 'img \<times> keypoint list \<times> string list \<times> int
     \<Rightarrow> py_error + 'img \<times> array2 list \<times> int \<times> keypoint list" where
  "encode_example env strd hm_size prepared =
     (case prepared of (img, keypoints, class_labels, sid) \<Rightarrow>
        case make_heatmap strd hm_size (shape_hw env img) keypoints class_labels of
          Inl e \<Rightarrow> Inl e
        | Inr heatmap \<Rightarrow>
            (case fill_keypoints (zip keypoints class_labels) (replicate 5 (- 1, - 1)) of
               Inl e \<Rightarrow> Inl e
             | Inr ret_keypoints \<Rightarrow> Inr (as_float_chw env img, heatmap, sid, ret_keypoints)))"

text \<open>
  The head of \<^verbatim>\<open>RSNA2024KeypointDatasetTrainV1.__getitem__\<close>, up to and including the
  transform: the transformed image, key points and labels, and the study id.
\<close>

definition prepare_v1 ::
  "'img env \<Rightarrow> ('img, 'z) dataset_v1_scheme \<Rightarrow> int
     \<Rightarrow> py_error + 'img \<times> keypoint list \<times> string list \<times> int" where
  "prepare_v1 env ds idx =
     (case iloc (train_df ds) idx of
        Inl e \<Rightarrow> Inl e
      | Inr target_row \<Rightarrow>
          (case read_image_v1 env (path_join (image_root ds) (png_path target_row)) of
             Inl e \<Rightarrow> Inl e
           | Inr img \<Rightarrow>
               (case keypoints_v1 target_row level_names of
                  Inl e \<Rightarrow> Inl e
                | Inr (keypoints, class_labels) \<Rightarrow>
                    (case apply_transform (transform ds) img keypoints class_labels of
                       Inl e \<Rightarrow> Inl e
                     | Inr (img', keypoints', class_labels') \<Rightarrow>
                         Inr (img', keypoints', class_labels', study_id target_row)))))"

definition getitem_v1 ::
  "'img env \<Rightarrow> ('img, 'z) dataset_v1_scheme \<Rightarrow> int
     \<Rightarrow> py_error + 'img \<times> array2 list \<times> int \<times> keypoint list" where
  "getitem_v1 env ds idx =
     (case prepare_v1 env ds idx of
        Inl e \<Rightarrow> Inl e
      | Inr prepared \<Rightarrow> encode_example env (stride ds) (heatmap_size ds) prepared)"

text \<open>\<^verbatim>\<open>str.split\<close> at a one-character separator.\<close>

fun split_on :: "char \<Rightarrow> string \<Rightarrow> string list" where
  "split_on sep [] = [[]]"
| "split_on sep (ch # rest) =
     (if ch = sep then [] # split_on sep rest
      else (case split_on sep rest of
              [] \<Rightarrow> [[ch]]
            | part # parts \<Rightarrow> (ch # part) # parts))"

text \<open>
  \<^verbatim>\<open>int(image_path.stem.split('_')[1])\<close>: a stem without an underscore raises
  \<^verbatim>\<open>IndexError\<close>, a second part that is no integer raises \<^verbatim>\<open>ValueError\<close>.
\<close>

definition instance_token :: "'img env \<Rightarrow> string \<Rightarrow> py_error + int" where
  "instance_token env image_path =
     (let parts = split_on (CHR ''_'') (path_stem env image_path)
      in if length parts < 2 then Inl IndexError
         else (case int_of_str env (parts ! 1) of
                 None \<Rightarrow> Inl ValueError
               | Some v \<Rightarrow> Inr v))"

text \<open>
  The search loop for the annotated slice: the position of the first path whose token
  equals the row's instance number, or the initial \<open>-1\<close>.
\<close>

fun find_base_index :: "'img env \<Rightarrow> string list \<Rightarrow> int \<Rightarrow> nat \<Rightarrow> py_error + int" where
  "find_base_index env [] base_instance_number i = Inr (- 1)"
| "find_base_index env (image_path # rest) base_instance_number i =
     (case instance_token env image_path of
        Inl e \<Rightarrow> Inl e
      | Inr token \<Rightarrow>
          if token = base_instance_number then Inr (int i)
          else find_base_index env rest base_instance_number (Suc i))"

text \<open>
  The head of \<^verbatim>\<open>RSNA2024KeypointDatasetTrainV2.__getitem__\<close>, up to and including the
  transform. The \<^verbatim>\<open>assert\<close> is modelled as executed (Python run without \<^verbatim>\<open>-O\<close>).
\<close>

definition prepare_v2 ::
  "'img env \<Rightarrow> 'img dataset_v2 \<Rightarrow> int \<Rightarrow> py_error + 'img \<times> keypoint list \<times> string list \<times> int" where
  "prepare_v2 env ds idx =
     (case iloc (train_df ds) idx of
        Inl e \<Rightarrow> Inl e
      | Inr target_row \<Rightarrow>
     (case sorted_iterdir env (path_join (image_root ds) (image_dir target_row)) of
        Inl e \<Rightarrow> Inl e
      | Inr image_paths \<Rightarrow>
     (case find_base_index env image_paths (instance_number target_row) 0 of
        Inl e \<Rightarrow> Inl e
      | Inr found \<Rightarrow>
     if found = - 1 then Inl AssertionError
     else
     (case keypoints_v2 target_row level_names of
        Inl e \<Rightarrow> Inl e
      | Inr (norm_keypoints, class_labels) \<Rightarrow>
     (let base_index = (if use_center ds then int (length image_paths) div 2 else found)
      in
     (case select_n_elements image_paths (num_slices ds) base_index of
        Inl e \<Rightarrow> Inl e
      | Inr selected \<Rightarrow>
     (case read_images env selected of
        Inl e \<Rightarrow> Inl e
      | Inr images \<Rightarrow>
     (case np_stack_last env images of
        Inl e \<Rightarrow> Inl e
      | Inr img \<Rightarrow>
     (case shape_hw env img of (h, w) \<Rightarrow>
     (case apply_transform (transform ds) img
             (map (\<lambda>(nx, ny). (nx * real w, ny * real h)) norm_keypoints) class_labels of
        Inl e \<Rightarrow> Inl e
      | Inr (img', keypoints', class_labels') \<Rightarrow>
          Inr (img', keypoints', class_labels', study_id target_row)))))))))))"

definition getitem_v2 ::
  "'img env \<Rightarrow> 'img dataset_v2 \<Rightarrow> int \<Rightarrow> py_error + 'img \<times> array2 list \<times> int \<times> keypoint list" where
  "getitem_v2 env ds idx =
     (case prepare_v2 env ds idx of
        Inl e \<Rightarrow> Inl e
      | Inr prepared \<Rightarrow> encode_example env (stride ds) (heatmap_size ds) prepared)"

text \<open>
  The invariant of the heat-map tensor for an example whose transformed image has
  height \<open>h\<close> and width \<open>w\<close>, with the key points and labels that survived the
  transform: five channels of shape \<open>(h div stride, w div stride)\<close>; values in
  \<open>[0, 1]\<close>; a channel whose level is not among the surviving labels is all zero; and,
  when the surviving labels are pairwise distinct, every other channel is the zero
  array stamped once, at the key point of its level.
\<close>

definition heatmap_invariant ::
  "int \<Rightarrow> int \<times> int \<Rightarrow> nat \<times> nat \<Rightarrow> (keypoint \<times> string) list \<Rightarrow> array2 list \<Rightarrow> bool" where
  "heatmap_invariant strd hm_size hw survivors heatmap =
     (case hw of (h, w) \<Rightarrow>
        let zeros = np_zeros (nat (int h div strd)) (nat (int w div strd)) in
        length heatmap = 5 \<and>
        (\<forall>c < 5. nrows (heatmap ! c) = nat (int h div strd) \<and>
                 ncols (heatmap ! c) = nat (int w div strd) \<and>
                 wf_array (heatmap ! c) \<and> unit_cells (heatmap ! c)) \<and>
        (\<forall>c < 5. level_names ! c \<notin> snd ` set survivors \<longrightarrow> heatmap ! c = zeros) \<and>
        (distinct (map snd survivors) \<longrightarrow>
           (\<forall>c < 5. heatmap ! c = zeros \<and> level_names ! c \<notin> snd ` set survivors \<or>
              (\<exists>keypoint radius.
                  (keypoint, level_names ! c) \<in> set survivors \<and>
                  heatmap_radius hm_size strd = Inr radius \<and>
                  draw_gaussian zeros (fst keypoint / of_int strd, snd keypoint / of_int strd)
                    radius 1 = Inr (heatmap ! c)))))"

text \<open>An auxiliary notion for the proofs, and a small concrete world for the examples.\<close>

definition channel_ok :: "nat \<Rightarrow> nat \<Rightarrow> array2 \<Rightarrow> bool" where
  "channel_ok h w a = (nrows a = h \<and> ncols a = w \<and> wf_array a \<and> unit_cells a)"

definition demo_env :: "(nat \<times> nat) env" where
  "demo_env =
     \<lparr>imread_gray = (\<lambda>p. Some (40, 40)),
      resize_fixed = (\<lambda>i. (512, 512)),
      as_uint8 = (\<lambda>i. i),
      shape_hw = (\<lambda>i. i),
      np_stack_last = (\<lambda>imgs. case imgs of [] \<Rightarrow> Inl ValueError | i # rest \<Rightarrow> Inr i),
      as_float_chw = (\<lambda>i. i),
      sorted_iterdir = (\<lambda>d. Inr [''s_1'', ''s_2'', ''s_3'']),
      path_stem = (\<lambda>p. p),
      int_of_str = (\<lambda>s. if s = ''1'' then Some 1 else if s = ''2'' then Some 2
                         else if s = ''3'' then Some 3 else None)\<rparr>"

definition demo_row :: "int \<Rightarrow> row" where
  "demo_row inst =
     \<lparr>study_id = 7, png_path = ''a.png'', image_dir = ''series'', instance_number = inst,
      columns = (\<lambda>c. Some (1 / 2))\<rparr>"

definition demo_v1 :: "(nat \<times> nat) dataset_v1" where
  "demo_v1 =
     \<lparr>image_root = ''data'', train_df = [demo_row 2], transform = None,
      heatmap_size = (20, 20), stride = 4\<rparr>"

definition demo_v2 :: "int \<Rightarrow> (nat \<times> nat) dataset_v2" where
  "demo_v2 inst =
     \<lparr>image_root = ''data'', train_df = [demo_row inst], transform = None,
      heatmap_size = (20, 20), stride = 4, num_slices = 3, use_center = True\<rparr>"

subsection \<open>The multi-class focal loss\<close>

text \<open>
  What a loss module returns: a scalar (possibly NaN) for the reductions
  \<^verbatim>\<open>'mean'\<close> and \<^verbatim>\<open>'sum'\<close>, a vector for \<^verbatim>\<open>'none'\<close>.
\<close>

datatype tensor_out = Scalar pyfloat | Vector "real list"

text \<open>
  The two layouts \<^verbatim>\<open>FocalLoss.forward\<close> accepts: logits \<open>(N, C)\<close> with targets \<open>(N)\<close>,
  and logits \<open>(N, C, d1, \<dots>, dK)\<close> with targets \<open>(N, d1, \<dots>, dK)\<close>. In the second the
  spatial axes are kept as one row-major axis of length \<open>D = d1 * \<dots> * dK\<close>: logits
  \<open>(N, C, D)\<close>, targets \<open>(N, D)\<close>.
\<close>

datatype batch = Plain "real list list" "int list"
  | Spatial "real list list list" "int list list"

record focal_loss =
  alpha :: "real list option"
  gamma :: real
  reduction :: string
  ignore_index :: int

text \<open>\<^verbatim>\<open>FocalLoss.__init__\<close> rejects an unknown reduction.\<close>

definition focal_loss_init :: "real list option \<Rightarrow> real \<Rightarrow> string \<Rightarrow> int \<Rightarrow> py_error + focal_loss" where
  "focal_loss_init a g red ign =
     (if red \<notin> {''mean'', ''sum'', ''none''} then Inl ValueError
      else Inr \<lparr>alpha = a, gamma = g, reduction = red, ignore_index = ign\<rparr>)"

text \<open>
  The branch \<^verbatim>\<open>if x.ndim > 2\<close>: \<^verbatim>\<open>x.permute(0, 2, \<dots>, 1).reshape(-1, c)\<close> makes one
  row of \<open>C\<close> scores per sample and position, \<^verbatim>\<open>y.view(-1)\<close> lists the targets in the
  same order.
\<close>

definition positions :: "real list list \<Rightarrow> real list list" where
  "positions xn =
     map (\<lambda>d. map (\<lambda>scores. scores ! d) xn)
       [0..<(case xn of [] \<Rightarrow> 0 | scores # rest \<Rightarrow> length scores)]"

definition flatten_batch :: "batch \<Rightarrow> real list list \<times> int list" where
  "flatten_batch b =
     (case b of
        Plain x y \<Rightarrow> (x, y)
      | Spatial x y \<Rightarrow> (concat (map positions x), concat y))"

text \<open>\<^verbatim>\<open>F.log_softmax(x, dim=-1)\<close> on one row.\<close>

definition log_softmax :: "real list \<Rightarrow> real list" where
  "log_softmax scores = map (\<lambda>v. v - ln (sum_list (map exp scores))) scores"

definition class_weight :: "real list option \<Rightarrow> int \<Rightarrow> real" where
  "class_weight weight t = (case weight of None \<Rightarrow> 1 | Some w \<Rightarrow> w ! nat t)"

text \<open>
  \<^verbatim>\<open>nn.NLLLoss(weight=alpha, reduction='none', \<dots>)\<close> on rows whose targets are not
  ignored: \<open>- weight[t] * log_p[t]\<close> per row; a class index outside the row or a
  weight vector of another length raises.
\<close>

definition nll_loss_none :: "real list option \<Rightarrow> real list list \<Rightarrow> int list \<Rightarrow> py_error + real list" where
  "nll_loss_none weight log_p y =
     (if \<not> list_all (\<lambda>(row, t). 0 \<le> t \<and> t < int (length row)) (zip log_p y)
      then Inl IndexError
      else if \<not> (case weight of None \<Rightarrow> True
                  | Some w \<Rightarrow> list_all (\<lambda>row. length row = length w) log_p)
      then Inl RuntimeError
      else Inr (map (\<lambda>(row, t). - class_weight weight t * (row ! nat t)) (zip log_p y)))"

text \<open>
  \<^verbatim>\<open>base ** gamma\<close> on tensors: exponent 0 gives 1 for every base. The base here is
  \<open>1 - pt \<ge> 0\<close>.
\<close>

definition torch_pow :: "real \<Rightarrow> real \<Rightarrow> real" where
  "torch_pow base e = (if e = 0 then 1 else base powr e)"

definition focal_forward :: "focal_loss \<Rightarrow> batch \<Rightarrow> py_error + tensor_out" where
  "focal_forward self b =
     (case flatten_batch b of (x, y) \<Rightarrow>
        let y' = filter (\<lambda>t. t \<noteq> ignore_index self) y
        in if length y' = 0 then Inr (Scalar (Some 0))
           else if length x \<noteq> length y then Inl IndexError
           else
             let x' = map fst (filter (\<lambda>(row, t). t \<noteq> ignore_index self) (zip x y));
                 log_p = map log_softmax x'
             in case nll_loss_none (alpha self) log_p y' of
                  Inl e \<Rightarrow> Inl e
                | Inr ce \<Rightarrow>
                    let log_pt = map (\<lambda>(row, t). row ! nat t) (zip log_p y');
                        pt = map exp log_pt;
                        focal_term = map (\<lambda>p. torch_pow (1 - p) (gamma self)) pt;
                        loss = map (\<lambda>(f, c). f * c) (zip focal_term ce)
                    in if reduction self = ''mean''
                       then Inr (Scalar (Some (sum_list loss / real (length loss))))
                       else if reduction self = ''sum''
                       then Inr (Scalar (Some (sum_list loss)))
                       else Inr (Vector loss))"

text \<open>
  Plain weighted cross-entropy, as PyTorch documents \<^verbatim>\<open>nn.CrossEntropyLoss\<close> with class
  weights \<open>w\<close>, an ignore index and a reduction: the loss of a row with target \<open>t\<close> is
  \<open>- w[t] * log_softmax(row)[t]\<close>, and 0 when \<open>t\<close> is ignored; \<^verbatim>\<open>'none'\<close> returns the
  losses of all rows, \<^verbatim>\<open>'sum'\<close> their sum, \<^verbatim>\<open>'mean'\<close> their sum divided by the sum of
  the weights \<open>w[t]\<close> of the rows that are not ignored (NaN when that sum is zero).
  This definition follows the documentation, not code of the repository; it is what the
  focal loss is compared with.
\<close>

definition weighted_cross_entropy ::
  "real list option \<Rightarrow> int \<Rightarrow> string \<Rightarrow> batch \<Rightarrow> py_error + tensor_out" where
  "weighted_cross_entropy weight ign red b =
     (case flatten_batch b of (x, y) \<Rightarrow>
        if length x \<noteq> length y then Inl ValueError
        else if \<not> list_all (\<lambda>(row, t). t = ign \<or> 0 \<le> t \<and> t < int (length row)) (zip x y)
        then Inl IndexError
        else if \<not> (case weight of None \<Rightarrow> True
                    | Some w \<Rightarrow> list_all (\<lambda>row. length row = length w) x)
        then Inl RuntimeError
        else
          let losses = map (\<lambda>(row, t). if t = ign then 0
                                        else - class_weight weight t * (log_softmax row ! nat t))
                         (zip x y);
              total_weight = sum_list (map (\<lambda>t. if t = ign then 0 else class_weight weight t) y)
          in if red = ''mean''
             then Inr (Scalar (if total_weight = 0 then None
                               else Some (sum_list losses / total_weight)))
             else if red = ''sum'' then Inr (Scalar (Some (sum_list losses)))
             else Inr (Vector losses))"

text \<open>
  Valid inputs for both losses: as many rows as targets, every target the ignore index
  or a class of its row, and a weight per class.
\<close>

definition valid_batch :: "real list option \<Rightarrow> int \<Rightarrow> batch \<Rightarrow> bool" where
  "valid_batch weight ign b =
     (case flatten_batch b of (x, y) \<Rightarrow>
        length x = length y \<and>
        list_all (\<lambda>(row, t). t = ign \<or> 0 \<le> t \<and> t < int (length row)) (zip x y) \<and>
        (case weight of None \<Rightarrow> True | Some w \<Rightarrow> list_all (\<lambda>row. length row = length w) x))"

text \<open>The number of targets that are not ignored.\<close>

definition count_unignored :: "int \<Rightarrow> batch \<Rightarrow> nat" where
  "count_unignored ign b = length (filter (\<lambda>t. t \<noteq> ign) (snd (flatten_batch b)))"

subsection \<open>The composite loss\<close>

text \<open>
  Values of the \<^verbatim>\<open>ce_loss\<close> configuration dictionary. A dictionary is an association
  list with distinct keys, in insertion order.
\<close>

datatype pyval = PStr string | PFloat real | PInt int | PList "real list"
  | PTensor "real list" | PNone

type_synonym pydict = "(string \<times> pyval) list"

definition dict_del :: "pydict \<Rightarrow> string \<Rightarrow> pydict" where
  "dict_del d k = filter (\<lambda>(k', v). k' \<noteq> k) d"

definition dict_set :: "pydict \<Rightarrow> string \<Rightarrow> pyval \<Rightarrow> pydict" where
  "dict_set d k v =
     (if k \<in> fst ` set d then map (\<lambda>(k', v'). if k' = k then (k, v) else (k', v')) d
      else d @ [(k, v)])"

text \<open>\<^verbatim>\<open>torch.tensor(value)\<close>; a string or \<^verbatim>\<open>None\<close> raises.\<close>

definition torch_tensor :: "pyval \<Rightarrow> py_error + pyval" where
  "torch_tensor v =
     (case v of
        PList xs \<Rightarrow> Inr (PTensor xs)
      | PTensor xs \<Rightarrow> Inr (PTensor xs)
      | PFloat r \<Rightarrow> Inr (PTensor [r])
      | PInt i \<Rightarrow> Inr (PTensor [of_int i])
      | PStr s \<Rightarrow> Inl ValueError
      | PNone \<Rightarrow> Inl RuntimeError)"

text \<open>
  \<^verbatim>\<open>if key in ce_loss: v = ce_loss.pop(key); ce_loss[key] = torch.tensor(v)\<close>: the
  dictionary after the statement, and whether \<^verbatim>\<open>torch.tensor\<close> raised (the key is
  then already popped).
\<close>

definition retensor :: "string \<Rightarrow> pydict \<Rightarrow> pydict \<times> (py_error + unit)" where
  "retensor key d =
     (case map_of d key of
        None \<Rightarrow> (d, Inr ())
      | Some v \<Rightarrow>
          (case torch_tensor v of
             Inl e \<Rightarrow> (dict_del d key, Inl e)
           | Inr t \<Rightarrow> (dict_set (dict_del d key) key t, Inr ())))"

text \<open>
  \<^verbatim>\<open>FocalLoss(**ce_loss)\<close>: a keyword that is no parameter of the constructor raises
  \<^verbatim>\<open>TypeError\<close>; the defaults are those of \<^verbatim>\<open>FocalLoss.__init__\<close>. A \<^verbatim>\<open>gamma\<close> or
  \<^verbatim>\<open>ignore_index\<close> that is no number, or an \<^verbatim>\<open>alpha\<close> that is no tensor, is reported
  as \<^verbatim>\<open>TypeError\<close> here (Python stores it and fails when it is first used).
\<close>

definition focal_of_kwargs :: "pydict \<Rightarrow> py_error + focal_loss" where
  "focal_of_kwargs kw =
     (if \<not> list_all (\<lambda>(k, v). k \<in> {''alpha'', ''gamma'', ''reduction'', ''ignore_index''}) kw
      then Inl TypeError
      else
        case (case map_of kw ''reduction'' of None \<Rightarrow> Some ''mean''
              | Some (PStr s) \<Rightarrow> Some s | Some other \<Rightarrow> None) of
          None \<Rightarrow> Inl ValueError
        | Some red \<Rightarrow>
        (case (case map_of kw ''alpha'' of None \<Rightarrow> Some None | Some PNone \<Rightarrow> Some None
               | Some (PTensor xs) \<Rightarrow> Some (Some xs) | Some other \<Rightarrow> None) of
          None \<Rightarrow> Inl TypeError
        | Some a \<Rightarrow>
        (case (case map_of kw ''gamma'' of None \<Rightarrow> Some 0 | Some (PFloat g) \<Rightarrow> Some g
               | Some (PInt i) \<Rightarrow> Some (of_int i) | Some other \<Rightarrow> None) of
          None \<Rightarrow> Inl TypeError
        | Some g \<Rightarrow>
        (case (case map_of kw ''ignore_index'' of None \<Rightarrow> Some (- 100)
               | Some (PInt i) \<Rightarrow> Some i | Some other \<Rightarrow> None) of
          None \<Rightarrow> Inl TypeError
        | Some ign \<Rightarrow> focal_loss_init a g red ign))))"

text \<open>
  A classification loss as \<^verbatim>\<open>RSNA2024Loss.forward\<close> calls it: logits \<open>(N, C)\<close> and one
  target per sample.
\<close>

type_synonym 't ce_call = "real list list \<Rightarrow> 't list \<Rightarrow> py_error + tensor_out"

record 't rsna_loss =
  conditions :: "string list"
  levels :: "string list"
  overall_loss_weight :: real
  level_loss_weight :: real
  ce_loss :: "'t ce_call"
  condition_weight :: "real list"

text \<open>
  \<^verbatim>\<open>RSNA2024Loss.__init__\<close>. It returns the caller's \<^verbatim>\<open>ce_loss\<close> dictionary as the call
  leaves it, next to the new object or the exception. \<^verbatim>\<open>nn.CrossEntropyLoss(**ce_loss)\<close>
  is the parameter \<open>new_cross_entropy\<close>.
\<close>

definition rsna_init ::
  "(pydict \<Rightarrow> py_error + int ce_call) \<Rightarrow> string list \<Rightarrow> string list \<Rightarrow> pydict
     \<Rightarrow> real list option \<Rightarrow> real \<Rightarrow> real \<Rightarrow> pydict \<times> (py_error + int rsna_loss)" where
  "rsna_init new_cross_entropy conds lvls ce_loss_arg cond_weight overall_w level_w =
     (let make = (\<lambda>call.
            \<lparr>conditions = conds, levels = lvls, overall_loss_weight = overall_w,
             level_loss_weight = level_w, ce_loss = call,
             condition_weight = (case cond_weight of
                                   None \<Rightarrow> replicate (length conds) 1
                                 | Some w \<Rightarrow> w)\<rparr>)
      in case map_of ce_loss_arg ''name'' of
           None \<Rightarrow> (ce_loss_arg, Inl KeyError)
         | Some ce_loss_name \<Rightarrow>
             let d = dict_del ce_loss_arg ''name''
             in if ce_loss_name = PStr ''CrossEntropyLoss''
                then (case retensor ''weight'' d of
                        (d', Inl e) \<Rightarrow> (d', Inl e)
                      | (d', Inr u) \<Rightarrow>
                          (d', case new_cross_entropy d' of
                                 Inl e \<Rightarrow> Inl e
                               | Inr call \<Rightarrow> Inr (make call)))
                else if ce_loss_name = PStr ''FocalLoss''
                then (case retensor ''alpha'' d of
                        (d', Inl e) \<Rightarrow> (d', Inl e)
                      | (d', Inr u) \<Rightarrow>
                          (d', case focal_of_kwargs d' of
                                 Inl e \<Rightarrow> Inl e
                               | Inr fl \<Rightarrow> Inr (make (\<lambda>x y. focal_forward fl (Plain x y)))))
                else (d, Inl ValueError))"

text \<open>
  Batched tensors with their shapes: \<open>(N, cols)\<close> and \<open>(N, dim1, dim2)\<close>, entries of any
  type (a vector of class scores, a target).
\<close>

record 'a tensor2 =
  t2_cols :: nat
  t2_rows :: "'a list list"

record 'a tensor3 =
  t3_dim1 :: nat
  t3_dim2 :: nat
  t3_rows :: "'a list list list"

definition wf_tensor2 :: "'a tensor2 \<Rightarrow> bool" where
  "wf_tensor2 t = list_all (\<lambda>row. length row = t2_cols t) (t2_rows t)"

text \<open>\<^verbatim>\<open>t[:, j]\<close> and \<^verbatim>\<open>t[:, i, j]\<close>; an index outside the axis raises.\<close>

definition column2 :: "'a tensor2 \<Rightarrow> nat \<Rightarrow> py_error + 'a list" where
  "column2 t j =
     (if j < t2_cols t then Inr (map (\<lambda>row. row ! j) (t2_rows t)) else Inl IndexError)"

definition column3 :: "'a tensor3 \<Rightarrow> nat \<Rightarrow> nat \<Rightarrow> py_error + 'a list" where
  "column3 t i j =
     (if i < t3_dim1 t \<and> j < t3_dim2 t then Inr (map (\<lambda>s. s ! i ! j) (t3_rows t))
      else Inl IndexError)"

definition scale_out :: "tensor_out \<Rightarrow> real \<Rightarrow> tensor_out" where
  "scale_out l w =
     (case l of
        Scalar v \<Rightarrow> Scalar (map_option (\<lambda>u. u * w) v)
      | Vector xs \<Rightarrow> Vector (map (\<lambda>u. u * w) xs))"

fun scalars :: "tensor_out list \<Rightarrow> pyfloat list option" where
  "scalars [] = Some []"
| "scalars (Scalar v # rest) = map_option (\<lambda>vs. v # vs) (scalars rest)"
| "scalars (Vector xs # rest) = None"

fun vectors :: "tensor_out list \<Rightarrow> real list list option" where
  "vectors [] = Some []"
| "vectors (Vector xs # rest) = map_option (\<lambda>xss. xs # xss) (vectors rest)"
| "vectors (Scalar v # rest) = None"

text \<open>\<^verbatim>\<open>torch.mean\<close> of a one-dimensional tensor; of no elements it is NaN.\<close>

definition mean_floats :: "pyfloat list \<Rightarrow> pyfloat" where
  "mean_floats vs =
     (if vs = [] \<or> None \<in> set vs then None
      else Some (sum_list (map the vs) / real (length vs)))"

text \<open>
  \<^verbatim>\<open>torch.mean(torch.stack(losses))\<close>: \<^verbatim>\<open>torch.stack\<close> raises on an empty list and on
  tensors of different shapes.
\<close>

definition stack_mean :: "tensor_out list \<Rightarrow> py_error + pyfloat" where
  "stack_mean ls =
     (if ls = [] then Inl RuntimeError
      else case scalars ls of
             Some vs \<Rightarrow> Inr (mean_floats vs)
           | None \<Rightarrow>
               (case vectors ls of
                  None \<Rightarrow> Inl RuntimeError
                | Some xss \<Rightarrow>
                    if list_all (\<lambda>xs. length xs = length (hd xss)) xss
                    then Inr (mean_floats (map Some (concat xss)))
                    else Inl RuntimeError))"

text \<open>The double loop over conditions and levels, in the order of the index pairs.\<close>

fun partial_losses ::
  "'t rsna_loss \<Rightarrow> (real list) tensor3 \<Rightarrow> 't tensor3 \<Rightarrow> (nat \<times> nat) list
     \<Rightarrow> py_error + tensor_out list" where
  "partial_losses self logits targets [] = Inr []"
| "partial_losses self logits targets ((cond_idx, level_idx) # rest) =
     (case column3 logits cond_idx level_idx of
        Inl e \<Rightarrow> Inl e
      | Inr logit \<Rightarrow>
     (case column3 targets cond_idx level_idx of
        Inl e \<Rightarrow> Inl e
      | Inr target \<Rightarrow>
     (case ce_loss self logit target of
        Inl e \<Rightarrow> Inl e
      | Inr l \<Rightarrow>
     if \<not> cond_idx < length (condition_weight self) then Inl IndexError
     else
     (case partial_losses self logits targets rest of
        Inl e \<Rightarrow> Inl e
      | Inr ls \<Rightarrow> Inr (scale_out l (condition_weight self ! cond_idx) # ls)))))"

definition overall_loss ::
  "'t rsna_loss \<Rightarrow> (real list) tensor3 \<Rightarrow> 't tensor3 \<Rightarrow> py_error + pyfloat" where
  "overall_loss self logits targets =
     (case partial_losses self logits targets
             (List.product [0..<length (conditions self)] [0..<length (levels self)]) of
        Inl e \<Rightarrow> Inl e
      | Inr ls \<Rightarrow> stack_mean ls)"

text \<open>
  The loop of the level-loss branch. \<^verbatim>\<open>self.level_loss\<close> is
  \<^verbatim>\<open>nn.CrossEntropyLoss()\<close> with its defaults: no weights, ignore index \<open>-100\<close>,
  reduction \<^verbatim>\<open>'mean'\<close>. Subscripting \<^verbatim>\<open>None\<close> raises \<^verbatim>\<open>TypeError\<close>. A level is
  skipped when all its targets are \<open>-100\<close>.
\<close>

fun level_losses ::
  "(real list) tensor2 option \<Rightarrow> int tensor2 option \<Rightarrow> nat list \<Rightarrow> py_error + tensor_out list" where
  "level_losses level_logits level_targets [] = Inr []"
| "level_losses level_logits level_targets (level_idx # rest) =
     (case level_logits of
        None \<Rightarrow> Inl TypeError
      | Some ll \<Rightarrow>
     (case column2 ll level_idx of
        Inl e \<Rightarrow> Inl e
      | Inr level_logit \<Rightarrow>
     (case level_targets of
        None \<Rightarrow> Inl TypeError
      | Some lt \<Rightarrow>
     (case column2 lt level_idx of
        Inl e \<Rightarrow> Inl e
      | Inr level_target \<Rightarrow>
     if list_ex (\<lambda>v. v \<noteq> - 100) level_target
     then (case weighted_cross_entropy None (- 100) ''mean'' (Plain level_logit level_target) of
             Inl e \<Rightarrow> Inl e
           | Inr l \<Rightarrow>
               (case level_losses level_logits level_targets rest of
                  Inl e \<Rightarrow> Inl e
                | Inr ls \<Rightarrow> Inr (l # ls)))
     else level_losses level_logits level_targets rest))))"

definition fl_add :: "pyfloat \<Rightarrow> pyfloat \<Rightarrow> pyfloat" where
  "fl_add p q = (case p of None \<Rightarrow> None | Some u \<Rightarrow> map_option (\<lambda>v. u + v) q)"

definition fl_scale :: "real \<Rightarrow> pyfloat \<Rightarrow> pyfloat" where
  "fl_scale w p = map_option (\<lambda>v. w * v) p"

text \<open>The returned dictionary \<^verbatim>\<open>losses\<close>.\<close>

record loss_dict =
  overall_loss_item :: pyfloat
  level_loss_item :: pyfloat
  loss_item :: pyfloat

definition forward ::
  "'t rsna_loss \<Rightarrow> (real list) tensor3 \<Rightarrow> 't tensor3 \<Rightarrow> (real list) tensor2 option
     \<Rightarrow> int tensor2 option \<Rightarrow> py_error + loss_dict" where
  "forward self logits targets level_logits level_targets =
     (case overall_loss self logits targets of
        Inl e \<Rightarrow> Inl e
      | Inr overall \<Rightarrow>
          if 0 < level_loss_weight self
          then (case level_losses level_logits level_targets [0..<length (levels self)] of
                  Inl e \<Rightarrow> Inl e
                | Inr ls \<Rightarrow>
                    (case stack_mean ls of
                       Inl e \<Rightarrow> Inl e
                     | Inr level_loss \<Rightarrow>
                         Inr \<lparr>overall_loss_item = overall, level_loss_item = level_loss,
                              loss_item = fl_add (fl_scale (overall_loss_weight self) overall)
                                            (fl_scale (level_loss_weight self) level_loss)\<rparr>))
          else Inr \<lparr>overall_loss_item = overall, level_loss_item = Some 0,
                    loss_item = fl_add (fl_scale (overall_loss_weight self) overall)
                                  (fl_scale (level_loss_weight self) (Some 0))\<rparr>)"

text \<open>Auxiliary notions for the proofs about the losses, and the inputs of the examples.\<close>

definition row_loss :: "real list option \<Rightarrow> real list \<times> int \<Rightarrow> real" where
  "row_loss weight z = - class_weight weight (snd z) * (log_softmax (fst z) ! nat (snd z))"

definition unignored :: "int \<Rightarrow> real list list \<Rightarrow> int list \<Rightarrow> (real list \<times> int) list" where
  "unignored ign x y = filter (\<lambda>(row, t). t \<noteq> ign) (zip x y)"

definition reduce_losses :: "string \<Rightarrow> real list \<Rightarrow> tensor_out" where
  "reduce_losses red ls =
     (if red = ''mean'' then Scalar (Some (sum_list ls / real (length ls)))
      else if red = ''sum'' then Scalar (Some (sum_list ls))
      else Vector ls)"

definition demo_loss :: "int rsna_loss" where
  "demo_loss =
     \<lparr>conditions = [''spinal_canal_stenosis''], levels = [''any''],
      overall_loss_weight = 1, level_loss_weight = 1 / 2,
      ce_loss = (\<lambda>x y. Inr (Scalar (Some 1))), condition_weight = [1]\<rparr>"

definition demo_ce_loss :: pydict where
  "demo_ce_loss = [(''name'', PStr ''CrossEntropyLoss''), (''weight'', PList [1, 2, 4])]"

subsection \<open>Properties of the Gaussian radius\<close>

lemma disc_plus_nonneg:
  fixes k h w :: real
  assumes "0 \<le> k" "k \<le> 1" "0 \<le> h" "0 \<le> w"
  shows "0 \<le> (h + w)^2 - 4 * k * w * h"
proof -
  have "k * (w * h) \<le> 1 * (w * h)"
    using assms by (intro mult_right_mono) auto
  then have "4 * k * w * h \<le> 4 * (w * h)" by simp
  moreover have "(h + w)^2 - 4 * (w * h) = (h - w)^2" by (simp add: power2_eq_square algebra_simps)
  moreover have "0 \<le> (h - w)^2" by simp
  ultimately show ?thesis by linarith
qed








lemma case_radius1:
  assumes "0 < m" "m < 1" "0 \<le> h" "0 \<le> w"
  shows "case_radius (coeffs1 (h, w) m) = Some (plus_form ((1 - m) / (1 + m)) h w / 2)"
proof -
  let ?k = "(1 - m) / (1 + m)"
  have k: "0 \<le> ?k" "?k \<le> 1" using assms by simp_all
  let ?D = "(h + w)^2 - 4 * ?k * w * h"
  have D0: "0 \<le> ?D" using disc_plus_nonneg[OF k assms(3,4)] .
  have eq: "(h + w)^2 - 4 * 1 * (w * h * (1 - m) / (1 + m)) = ?D" by simp
  have "case_radius (coeffs1 (h, w) m) = half_sum (h + w) (np_sqrt ?D)"
    unfolding case_radius_def coeffs1_def prod.case eq ..
  also have "\<dots> = Some (plus_form ?k h w / 2)"
    using D0 by (simp add: np_sqrt_def half_sum_def plus_form_def)
  finally show ?thesis .
qed

lemma case_radius2:
  assumes "0 < m" "m < 1" "0 \<le> h" "0 \<le> w"
  shows "case_radius (coeffs2 (h, w) m) = Some (plus_form (1 - m) h w)"
proof -
  let ?D = "(h + w)^2 - 4 * (1 - m) * w * h"
  have D0: "0 \<le> ?D" using disc_plus_nonneg[of "1 - m" h w] assms by simp
  have eq: "(2 * (h + w))^2 - 4 * 4 * ((1 - m) * w * h) = 4 * ?D"
    by (simp add: power2_eq_square algebra_simps)
  define D where "D = ?D"
  have D0': "0 \<le> D" using D0 by (simp only: D_def)
  have sq: "sqrt (4 * D) = 2 * sqrt D" by (simp only: real_sqrt_mult real_sqrt_four)
  have "case_radius (coeffs2 (h, w) m) = half_sum (2 * (h + w)) (np_sqrt (4 * D))"
    unfolding case_radius_def coeffs2_def prod.case eq D_def ..
  also have "\<dots> = Some ((h + w) + sqrt D)"
    using D0' by (simp add: np_sqrt_def half_sum_def sq)
  finally show ?thesis by (simp add: plus_form_def D_def)
qed

lemma case_radius3:
  assumes "0 < m" "m < 1" "0 \<le> h" "0 \<le> w"
  shows "case_radius (coeffs3 (h, w) m) = Some (minus_form m h w)"
proof -
  let ?E = "m^2 * (h + w)^2 + 4 * m * (1 - m) * w * h"
  have E0: "0 \<le> ?E" using assms by simp
  have eq: "(- 2 * m * (h + w))^2 - 4 * (4 * m) * ((m - 1) * w * h) = 4 * ?E"
    by (simp add: power2_eq_square algebra_simps)
  define E where "E = ?E"
  have E0': "0 \<le> E" using E0 by (simp only: E_def)
  have sq: "sqrt (4 * E) = 2 * sqrt E" by (simp only: real_sqrt_mult real_sqrt_four)
  have "case_radius (coeffs3 (h, w) m) = half_sum (- 2 * m * (h + w)) (np_sqrt (4 * E))"
    unfolding case_radius_def coeffs3_def prod.case eq E_def ..
  also have "\<dots> = Some (sqrt E - m * (h + w))"
    using E0' by (simp add: np_sqrt_def half_sum_def sq)
  finally show ?thesis by (simp add: minus_form_def E_def)
qed

lemma py_min3_Some: "py_min3 (Some x) (Some y) (Some z) = Some (min x (min y z))"
  by (simp add: py_min3_def fl_lt_def Let_def min_def)

lemma gaussian_radius_eq:
  assumes "0 < m" "m < 1" "0 \<le> h" "0 \<le> w"
  shows "gaussian_radius (h, w) m =
    Inr (Some (min (plus_form ((1 - m) / (1 + m)) h w / 2) (min (plus_form (1 - m) h w) (minus_form m h w))))"
  using assms
  by (simp add: gaussian_radius_def case_radius1 case_radius2 case_radius3 py_min3_Some)



lemma gaussian_radius_5_5:
  "gaussian_radius (5, 5) (16/25) = Inr (Some (8/5))"
proof -
  have s: "sqrt 256 = 16" by (rule real_sqrt_unique) simp_all
  have r3: "minus_form (16/25) 5 5 = 8/5"
    by (simp add: minus_form_def power2_eq_square s)
  have r2: "8/5 \<le> plus_form (1 - 16/25) 5 5" by (simp add: plus_form_def)
  have r1: "8/5 \<le> plus_form ((1 - 16/25) / (1 + 16/25)) 5 5 / 2" by (simp add: plus_form_def)
  show ?thesis
    using r1 r2 r3 gaussian_radius_eq[of "16/25" 5 5] by (simp add: min_def)
qed

text \<open>
  Claim C1. The claim says the returned value is the least of the positive roots of
  the three quadratics. At height 5, width 5 and \<open>min_overlap = 16/25\<close> the function
  returns \<open>8/5\<close>, which solves none of the three quadratics under either sign
  convention; the positive root of the third one is \<open>5/8\<close>. The returned value is
  \<open>a\<^sub>3\<close> times that root: the function divides by 2 where the root formula divides by
  \<open>2 * a\<close>.
\<close>

theorem gaussian_radius_is_no_root:
  "gaussian_radius (5, 5) (16/25) = Inr (Some (8/5)) \<and>
   \<not> is_root (coeffs1 (5, 5) (16/25)) (8/5) \<and>
   \<not> is_root (coeffs2 (5, 5) (16/25)) (8/5) \<and>
   \<not> is_root (coeffs3 (5, 5) (16/25)) (8/5) \<and>
   is_root (coeffs3 (5, 5) (16/25)) (5/8) \<and>
   fst (coeffs3 (5, 5) (16/25)) * (5/8) = 8/5"
  using gaussian_radius_5_5
  by (simp add: is_root_def coeffs1_def coeffs2_def coeffs3_def power2_eq_square)

subsection \<open>Properties of the slice selection\<close>

lemma py_trunc_of_int: "py_trunc (of_int k) = k"
  by (simp add: py_trunc_def)

lemma np_linspace_odd:
  assumes "odd n" "1 \<le> n"
  shows "np_linspace (of_int (b - n div 2)) (of_int (b + n div 2)) n =
         Inr (map (\<lambda>i. of_int (b - n div 2 + int i)) [0..<nat n])"
proof (cases "n = 1")
  case True
  then show ?thesis by (simp add: np_linspace_def)
next
  case False
  with assms have n3: "3 \<le> n" by presburger
  obtain k where k: "n = 2 * k + 1" using assms(1) by (auto elim: oddE)
  have k1: "1 \<le> k" using n3 k by simp
  have half: "n div 2 = k" using k by simp
  have dv: "n - 1 = 2 * k" using k by simp
  have step: "(real_of_int (b + k) - real_of_int (b - k)) / real_of_int (2 * k) = 1"
    using k1 by simp
  let ?y = "map (\<lambda>i. real i * 1 + real_of_int (b - k)) [0..<nat n]"
  have lt: "nat n - 1 < length [0..<nat n]" using n3 by simp
  have "?y ! (nat n - 1) = real (nat n - 1) * 1 + real_of_int (b - k)"
    using lt by (simp only: nth_map nth_upt length_upt) simp
  also have "real (nat n - 1) = real_of_int (2 * k)"
    using k k1 by (simp add: nat_add_distrib nat_mult_distrib)
  finally have last: "?y ! (nat n - 1) = real_of_int (b + k)" by simp
  have "?y[nat n - 1 := real_of_int (b + k)] = ?y"
    using last by (metis list_update_id)
  moreover have "?y = map (\<lambda>i. of_int (b - k + int i)) [0..<nat n]"
    by (simp add: add.commute)
  ultimately show ?thesis
    using n3 k1 unfolding np_linspace_def half dv Let_def step by simp
qed

lemma select_indices_odd:
  assumes "odd n" "1 \<le> n"
  shows "select_indices len n b =
         Inr (map (\<lambda>i. np_clip (b - n div 2 + int i) 0 (int len - 1)) [0..<nat n])"
  unfolding select_indices_def Let_def np_linspace_odd[OF assms]
  by (simp only: sum.case map_map comp_def py_trunc_of_int)

lemma np_take_in_range:
  assumes "list_all (\<lambda>j. 0 \<le> j \<and> j < int (length lst)) indices"
  shows "np_take lst indices = Inr (map (\<lambda>j. lst ! nat j) indices)"
proof -
  have "list_all (\<lambda>j. - int (length lst) \<le> j \<and> j < int (length lst)) indices"
    using assms by (auto simp: list_all_iff)
  moreover have "map (\<lambda>j. lst ! nat (if j < 0 then j + int (length lst) else j)) indices =
                 map (\<lambda>j. lst ! nat j) indices"
    using assms by (intro map_cong) (auto simp: list_all_iff)
  ultimately show ?thesis by (simp add: np_take_def Let_def)
qed




subsection \<open>Properties of the Gaussian stamp\<close>

lemma axis_slices:
  fixes y r :: int and H :: nat
  assumes r: "0 \<le> r"
    and h: "py_slice (y - min y r) (y + min (int H - y) (r + 1)) H = (h0, h1)"
    and g: "py_slice (r - min y r) (r + min (int H - y) (r + 1)) (nat (2 * r + 1)) = (g0, g1)"
    and ne: "h0 < h1" "g0 < g1"
  shows "int h0 = y - min y r \<and> int h1 = y + min (int H - y) (r + 1) \<and>
         int g0 = r - min y r \<and> int g1 = r + min (int H - y) (r + 1) \<and>
         h1 \<le> H \<and> g1 \<le> nat (2 * r + 1)"
proof -
  consider "y \<le> r" "int H - y \<le> r + 1" | "y \<le> r" "r + 1 < int H - y"
    | "r < y" "int H - y \<le> r + 1" | "r < y" "r + 1 < int H - y" by linarith
  then show ?thesis
  proof cases
    case 1
    then have m: "min y r = y" "min (int H - y) (r + 1) = int H - y" by simp_all
    show ?thesis using assms 1 unfolding m py_slice_def Let_def
      by (simp split: if_splits) linarith+
  next
    case 2
    then have m: "min y r = y" "min (int H - y) (r + 1) = r + 1" by simp_all
    show ?thesis using assms 2 unfolding m py_slice_def Let_def
      by (simp split: if_splits) linarith+
  next
    case 3
    then have m: "min y r = r" "min (int H - y) (r + 1) = int H - y" by simp_all
    show ?thesis using assms 3 unfolding m py_slice_def Let_def
      by (simp split: if_splits) linarith+
  next
    case 4
    then have m: "min y r = r" "min (int H - y) (r + 1) = r + 1" by simp_all
    show ?thesis using assms 4 unfolding m py_slice_def Let_def
      by (simp split: if_splits) linarith+
  qed
qed

lemma axis_slices_empty:
  fixes y r :: int and H :: nat
  assumes r: "0 \<le> r"
    and h: "py_slice (y - min y r) (y + min (int H - y) (r + 1)) H = (h0, h1)"
    and g: "py_slice (r - min y r) (r + min (int H - y) (r + 1)) (nat (2 * r + 1)) = (g0, g1)"
    and ne: "y + min (int H - y) (r + 1) \<le> y - min y r"
  shows "\<not> (h0 < h1 \<and> g0 < g1)"
proof
  assume "h0 < h1 \<and> g0 < g1"
  then have "int h0 = y - min y r \<and> int h1 = y + min (int H - y) (r + 1)"
    using axis_slices[OF r h g] by simp
  then show False using ne \<open>h0 < h1 \<and> g0 < g1\<close> by linarith
qed

lemma length_tabulate2: "length (tabulate2 h w f) = h"
  by (simp add: tabulate2_def)

lemma nth_tabulate2: "i < h \<Longrightarrow> j < w \<Longrightarrow> tabulate2 h w f ! i ! j = f i j"
  by (simp add: tabulate2_def)

lemma length_nth_tabulate2: "i < h \<Longrightarrow> length (tabulate2 h w f ! i) = w"
  by (simp add: tabulate2_def)

lemma tabulate2_cong:
  assumes "\<And>i j. i < h \<Longrightarrow> j < w \<Longrightarrow> f i j = g i j"
  shows "tabulate2 h w f = tabulate2 h w g"
  using assms by (simp add: tabulate2_def)

lemma tabulate2_cells:
  assumes "wf_array a"
  shows "tabulate2 (nrows a) (ncols a) (\<lambda>i j. cells a ! i ! j) = cells a"
proof (rule nth_equalityI)
  show "length (tabulate2 (nrows a) (ncols a) (\<lambda>i j. cells a ! i ! j)) = length (cells a)"
    using assms by (simp add: length_tabulate2 wf_array_def)
next
  fix i assume "i < length (tabulate2 (nrows a) (ncols a) (\<lambda>i j. cells a ! i ! j))"
  then have i: "i < nrows a" by (simp add: length_tabulate2)
  then have len: "length (cells a ! i) = ncols a"
    using assms by (simp add: wf_array_def list_all_length)
  show "tabulate2 (nrows a) (ncols a) (\<lambda>i j. cells a ! i ! j) ! i = cells a ! i"
    using i map_nth[of "cells a ! i"] by (simp add: tabulate2_def len)
qed

lemma wf_tabulate2: "wf_array (a\<lparr>cells := tabulate2 (nrows a) (ncols a) f\<rparr>)"
  by (simp add: wf_array_def tabulate2_def list_all_iff)

lemma np_ogrid_length:
  "length (np_ogrid (- ((of_int (2 * r + 1) - 1) / 2)) ((of_int (2 * r + 1) - 1) / 2 + 1))
     = nat (2 * r + 1)"
proof -
  have "(real_of_int (2 * r + 1) - 1) / 2 + 1 - - ((real_of_int (2 * r + 1) - 1) / 2)
          = real_of_int (2 * r + 1)" by simp
  then show ?thesis unfolding np_ogrid_def by (simp only: length_map length_upt ceiling_of_int diff_zero)
qed

lemma gaussian2D_result:
  assumes "gaussian2D shape sigma = Inr g"
  shows "wf_array g \<and> unit_cells g"
proof -
  obtain s0 s1 where sh: "shape = (s0, s1)" by (cases shape)
  define ys where "ys = np_ogrid (- ((of_int s0 - 1) / 2)) ((of_int s0 - 1) / 2 + 1)"
  define xs where "xs = np_ogrid (- ((of_int s1 - 1) / 2)) ((of_int s1 - 1) / 2 + 1)"
  define e where "e = (\<lambda>y x. exp (- (x * x + y * y) / (2 * sigma * sigma)))"
  define h where "h = map (\<lambda>y. map (\<lambda>x. e y x) xs) ys"
  define mx where "mx = Max (set (concat h))"
  define thr where "thr = (\<lambda>v. if v < float_eps * mx then 0 else v)"
  have g: "g = \<lparr>nrows = length ys, ncols = length xs, cells = map (map thr) h\<rparr>"
    using assms unfolding gaussian2D_def sh prod.case Let_def
    by (simp add: ys_def xs_def h_def e_def mx_def thr_def split: if_splits)
  have e01: "0 \<le> e y x \<and> e y x \<le> 1" for y x
  proof -
    have "0 \<le> 2 * sigma * sigma" by (simp add: mult.assoc)
    moreover have "- (x * x + y * y) \<le> 0" by simp
    ultimately have "- (x * x + y * y) / (2 * sigma * sigma) \<le> 0"
      by (rule divide_nonpos_nonneg[rotated])
    then show ?thesis unfolding e_def by (simp only: exp_ge_zero exp_le_one_iff simp_thms)
  qed
  have thr01: "0 \<le> thr (e y x) \<and> thr (e y x) \<le> 1" for y x
    using e01[of y x] by (simp add: thr_def)
  have wf: "wf_array g" by (simp add: g wf_array_def h_def list_all_iff)
  have "unit_cells g"
    unfolding unit_cells_def using thr01 by (simp add: g h_def)
  with wf show ?thesis by simp
qed

lemma gaussian2D_odd:
  assumes "0 \<le> r"
  shows "\<exists>g. gaussian2D (2 * r + 1, 2 * r + 1) sigma = Inr g \<and>
             nrows g = nat (2 * r + 1) \<and> ncols g = nat (2 * r + 1)"
proof -
  let ?ys = "np_ogrid (- ((of_int (2 * r + 1) - 1) / 2)) ((of_int (2 * r + 1) - 1) / 2 + 1)"
  have len: "length ?ys = nat (2 * r + 1)" by (rule np_ogrid_length)
  then have "?ys \<noteq> []" using assms by auto
  then have "concat (map (\<lambda>y. map (\<lambda>x. exp (- (x * x + y * y) / (2 * sigma * sigma))) ?ys) ?ys) \<noteq> []"
    by (cases ?ys) auto
  then show ?thesis
    unfolding gaussian2D_def prod.case Let_def using len by simp
qed

lemma np_maximum_out_shape:
  assumes "np_maximum_out hm hr hc g gr gc k = Inr hm'"
  shows "nrows hm' = nrows hm \<and> ncols hm' = ncols hm \<and> wf_array hm'"
  using assms by (auto simp: np_maximum_out_def wf_tabulate2 split: if_splits)

lemma np_maximum_out_idem:
  assumes "np_maximum_out hm hr hc g gr gc k = Inr hm'"
  shows "np_maximum_out hm' hr hc g gr gc k = Inr hm'"
proof -
  let ?G = "\<lambda>i j. cells g ! (fst gr + (if extent gr = 1 then 0 else i - fst hr))
                          ! (fst gc + (if extent gc = 1 then 0 else j - fst hc)) * k"
  let ?in = "\<lambda>i j. fst hr \<le> i \<and> i < snd hr \<and> fst hc \<le> j \<and> j < snd hc"
  let ?f = "\<lambda>i j. if ?in i j then max (cells hm ! i ! j) (?G i j) else cells hm ! i ! j"
  have ok: "(extent gr = extent hr \<or> extent gr = 1) \<and> (extent gc = extent hc \<or> extent gc = 1)"
    using assms by (auto simp: np_maximum_out_def split: if_splits)
  have hm': "hm' = hm\<lparr>cells := tabulate2 (nrows hm) (ncols hm) ?f\<rparr>"
    using assms ok by (simp add: np_maximum_out_def)
  have "tabulate2 (nrows hm) (ncols hm)
          (\<lambda>i j. if ?in i j then max (cells hm' ! i ! j) (?G i j) else cells hm' ! i ! j)
        = tabulate2 (nrows hm) (ncols hm) ?f"
  proof (rule tabulate2_cong)
    fix i j assume ij: "i < nrows hm" "j < ncols hm"
    have "cells hm' ! i ! j = ?f i j" using ij by (simp add: hm' nth_tabulate2)
    then show "(if ?in i j then max (cells hm' ! i ! j) (?G i j) else cells hm' ! i ! j) = ?f i j"
      by simp
  qed
  then show ?thesis
    using ok unfolding np_maximum_out_def by (simp add: hm')
qed

lemma draw_gaussian_alt:
  "draw_gaussian hm c r k =
     (case gaussian2D (2 * r + 1, 2 * r + 1) (of_int (2 * r + 1) / 6) of
        Inl e \<Rightarrow> Inl e
      | Inr g \<Rightarrow>
          if guard (views (nrows hm) (ncols hm) c r (nrows g) (ncols g))
          then apply_views hm g k (views (nrows hm) (ncols hm) c r (nrows g) (ncols g))
          else Inr hm)"
  unfolding draw_gaussian_def views_def guard_def apply_views_def Let_def prod.case
  by (rule refl)

lemma apply_views_shape:
  assumes "apply_views hm g k v = Inr hm'"
  shows "nrows hm' = nrows hm \<and> ncols hm' = ncols hm \<and> wf_array hm'"
  using assms np_maximum_out_shape unfolding apply_views_def by (cases v) auto

lemma apply_views_idem:
  assumes "apply_views hm g k v = Inr hm'"
  shows "apply_views hm' g k v = Inr hm'"
  using assms np_maximum_out_idem unfolding apply_views_def by (cases v) auto

lemma draw_gaussian_shape:
  assumes "draw_gaussian hm c r k = Inr hm'"
  shows "nrows hm' = nrows hm \<and> ncols hm' = ncols hm"
proof -
  obtain g where g: "gaussian2D (2 * r + 1, 2 * r + 1) (of_int (2 * r + 1) / 6) = Inr g"
    using assms unfolding draw_gaussian_alt
    by (cases "gaussian2D (2 * r + 1, 2 * r + 1) (of_int (2 * r + 1) / 6)") simp_all
  show ?thesis
  proof (cases "guard (views (nrows hm) (ncols hm) c r (nrows g) (ncols g))")
    case True
    then show ?thesis using assms apply_views_shape
      unfolding draw_gaussian_alt g sum.case by auto
  next
    case False
    then show ?thesis using assms unfolding draw_gaussian_alt g sum.case by simp
  qed
qed

lemma draw_gaussian_idem:
  assumes "draw_gaussian hm c r k = Inr hm'"
  shows "draw_gaussian hm' c r k = Inr hm'"
proof -
  have sh: "nrows hm' = nrows hm" "ncols hm' = ncols hm"
    using draw_gaussian_shape[OF assms] by simp_all
  obtain g where g: "gaussian2D (2 * r + 1, 2 * r + 1) (of_int (2 * r + 1) / 6) = Inr g"
    using assms unfolding draw_gaussian_alt
    by (cases "gaussian2D (2 * r + 1, 2 * r + 1) (of_int (2 * r + 1) / 6)") simp_all
  show ?thesis
  proof (cases "guard (views (nrows hm) (ncols hm) c r (nrows g) (ncols g))")
    case True
    then show ?thesis using assms apply_views_idem
      unfolding draw_gaussian_alt g sum.case sh by auto
  next
    case False
    then show ?thesis using assms unfolding draw_gaussian_alt g sum.case sh by simp
  qed
qed


lemma views_guarded:
  assumes r: "0 \<le> r"
    and v: "views (nrows hm) (ncols hm) c r (nat (2 * r + 1)) (nat (2 * r + 1)) = (hr, hc, gr, gc)"
    and gd: "guard (hr, hc, gr, gc)"
  shows "stamp_rect hm c r = (int (fst hr), int (snd hr), int (fst hc), int (snd hc))"
    and "extent gr = extent hr" "extent gc = extent hc"
    and "fst hr < snd hr" "fst hc < snd hc"
    and "snd hr \<le> nrows hm" "snd hc \<le> ncols hm"
    and "snd gr \<le> nat (2 * r + 1)" "snd gc \<le> nat (2 * r + 1)"
proof -
  define x where "x = py_round (fst c)"
  define y where "y = py_round (snd c)"
  have hr: "py_slice (y - min y r) (y + min (int (nrows hm) - y) (r + 1)) (nrows hm) = (fst hr, snd hr)"
    and gr: "py_slice (r - min y r) (r + min (int (nrows hm) - y) (r + 1)) (nat (2 * r + 1)) = (fst gr, snd gr)"
    and hc: "py_slice (x - min x r) (x + min (int (ncols hm) - x) (r + 1)) (ncols hm) = (fst hc, snd hc)"
    and gc: "py_slice (r - min x r) (r + min (int (ncols hm) - x) (r + 1)) (nat (2 * r + 1)) = (fst gc, snd gc)"
    using v unfolding views_def Let_def x_def y_def by simp_all
  have ne: "fst hr < snd hr" "fst gr < snd gr" "fst hc < snd hc" "fst gc < snd gc"
    using gd by (simp_all add: guard_def extent_def)
  note ay = axis_slices[OF r hr gr ne(1,2)]
  note ax = axis_slices[OF r hc gc ne(3,4)]
  show "stamp_rect hm c r = (int (fst hr), int (snd hr), int (fst hc), int (snd hc))"
    unfolding stamp_rect_def Let_def using ay ax by (simp add: x_def y_def)
  show "extent gr = extent hr" using ay ne unfolding extent_def by linarith
  show "extent gc = extent hc" using ax ne unfolding extent_def by linarith
  show "fst hr < snd hr" "fst hc < snd hc" using ne by simp_all
  show "snd hr \<le> nrows hm" "snd hc \<le> ncols hm" using ay ax by simp_all
  show "snd gr \<le> nat (2 * r + 1)" "snd gc \<le> nat (2 * r + 1)" using ay ax by simp_all
qed

lemma views_rect_empty:
  assumes r: "0 \<le> r"
    and e: "rect_empty (stamp_rect hm c r)"
  shows "\<not> guard (views (nrows hm) (ncols hm) c r (nat (2 * r + 1)) (nat (2 * r + 1)))"
proof -
  define x where "x = py_round (fst c)"
  define y where "y = py_round (snd c)"
  obtain hr hc gr gc where
    v: "views (nrows hm) (ncols hm) c r (nat (2 * r + 1)) (nat (2 * r + 1)) = (hr, hc, gr, gc)"
    by (metis prod_cases4)
  have hr: "py_slice (y - min y r) (y + min (int (nrows hm) - y) (r + 1)) (nrows hm) = (fst hr, snd hr)"
    and gr: "py_slice (r - min y r) (r + min (int (nrows hm) - y) (r + 1)) (nat (2 * r + 1)) = (fst gr, snd gr)"
    and hc: "py_slice (x - min x r) (x + min (int (ncols hm) - x) (r + 1)) (ncols hm) = (fst hc, snd hc)"
    and gc: "py_slice (r - min x r) (r + min (int (ncols hm) - x) (r + 1)) (nat (2 * r + 1)) = (fst gc, snd gc)"
    using v unfolding views_def Let_def x_def y_def by simp_all
  from e have "y + min (int (nrows hm) - y) (r + 1) \<le> y - min y r
             \<or> x + min (int (ncols hm) - x) (r + 1) \<le> x - min x r"
    unfolding rect_empty_def stamp_rect_def Let_def x_def y_def by simp
  then have "\<not> (fst hr < snd hr \<and> fst gr < snd gr) \<or> \<not> (fst hc < snd hc \<and> fst gc < snd gc)"
    using axis_slices_empty[OF r hr gr] axis_slices_empty[OF r hc gc] by blast
  then show ?thesis unfolding v guard_def extent_def by auto
qed

lemma draw_gaussian_char:
  assumes r: "0 \<le> r"
  shows "draw_gaussian hm c r k = Inr hm \<or>
    (\<exists>g hr hc gr gc.
        wf_array g \<and> unit_cells g \<and> nrows g = nat (2 * r + 1) \<and> ncols g = nat (2 * r + 1) \<and>
        draw_gaussian hm c r k =
          Inr (hm\<lparr>cells := tabulate2 (nrows hm) (ncols hm) (stamp_value hm g hr hc gr gc k)\<rparr>) \<and>
        stamp_rect hm c r = (int (fst hr), int (snd hr), int (fst hc), int (snd hc)) \<and>
        extent gr = extent hr \<and> extent gc = extent hc \<and>
        fst hr < snd hr \<and> fst hc < snd hc \<and>
        snd hr \<le> nrows hm \<and> snd hc \<le> ncols hm \<and>
        snd gr \<le> nrows g \<and> snd gc \<le> ncols g)"
proof -
  obtain g where g: "gaussian2D (2 * r + 1, 2 * r + 1) (of_int (2 * r + 1) / 6) = Inr g"
    and sh: "nrows g = nat (2 * r + 1)" "ncols g = nat (2 * r + 1)"
    using gaussian2D_odd[OF r] by blast
  obtain hr hc gr gc where
    v: "views (nrows hm) (ncols hm) c r (nat (2 * r + 1)) (nat (2 * r + 1)) = (hr, hc, gr, gc)"
    by (metis prod_cases4)
  show ?thesis
  proof (cases "guard (hr, hc, gr, gc)")
    case False
    then have "draw_gaussian hm c r k = Inr hm"
      unfolding draw_gaussian_alt g sum.case sh v by simp
    then show ?thesis by simp
  next
    case True
    note f = views_guarded[OF r v True]
    have "tabulate2 (nrows hm) (ncols hm)
            (\<lambda>i j. if fst hr \<le> i \<and> i < snd hr \<and> fst hc \<le> j \<and> j < snd hc
                 then max (cells hm ! i ! j)
                        (cells g
                           ! (fst gr + (if extent gr = 1 then 0 else i - fst hr))
                           ! (fst gc + (if extent gc = 1 then 0 else j - fst hc)) * k)
                 else cells hm ! i ! j)
          = tabulate2 (nrows hm) (ncols hm) (stamp_value hm g hr hc gr gc k)"
    proof (rule tabulate2_cong)
      fix i j
      have a: "fst hr \<le> i \<Longrightarrow> i < snd hr \<Longrightarrow> extent gr = 1 \<Longrightarrow> i - fst hr = 0"
        using f(2) unfolding extent_def by linarith
      have b: "fst hc \<le> j \<Longrightarrow> j < snd hc \<Longrightarrow> extent gc = 1 \<Longrightarrow> j - fst hc = 0"
        using f(3) unfolding extent_def by linarith
      show "(if fst hr \<le> i \<and> i < snd hr \<and> fst hc \<le> j \<and> j < snd hc
                 then max (cells hm ! i ! j)
                        (cells g
                           ! (fst gr + (if extent gr = 1 then 0 else i - fst hr))
                           ! (fst gc + (if extent gc = 1 then 0 else j - fst hc)) * k)
                 else cells hm ! i ! j) = stamp_value hm g hr hc gr gc k i j"
        using a b unfolding stamp_value_def by auto
    qed
    then have "draw_gaussian hm c r k =
        Inr (hm\<lparr>cells := tabulate2 (nrows hm) (ncols hm) (stamp_value hm g hr hc gr gc k)\<rparr>)"
      unfolding draw_gaussian_alt g sum.case sh v using True f(2,3)
      by (simp add: apply_views_def np_maximum_out_def)
    moreover have "wf_array g" "unit_cells g" using gaussian2D_result[OF g] by simp_all
    ultimately show ?thesis using f sh
      by (intro disjI2 exI[of _ g] exI[of _ hr] exI[of _ hc] exI[of _ gr] exI[of _ gc]) simp
  qed
qed

lemma draw_gaussian_rect_empty:
  assumes r: "0 \<le> r" and e: "rect_empty (stamp_rect hm c r)"
  shows "draw_gaussian hm c r k = Inr hm"
proof -
  obtain g where g: "gaussian2D (2 * r + 1, 2 * r + 1) (of_int (2 * r + 1) / 6) = Inr g"
    and sh: "nrows g = nat (2 * r + 1)" "ncols g = nat (2 * r + 1)"
    using gaussian2D_odd[OF r] by blast
  show ?thesis
    unfolding draw_gaussian_alt g sum.case sh using views_rect_empty[OF r e] by simp
qed

text \<open>
  Claim C4. For every well-formed heat map, every radius \<open>\<ge> 0\<close> and every centre (also
  one whose rounded coordinates lie outside the canvas), \<open>draw_gaussian\<close> raises
  nothing: the kernel view and the heat-map view always have the same extent when
  both are non-empty. The result has the shape of the input; every cell outside the
  destination rectangle \<open>[y - top, y + bottom) \<times> [x - left, x + right)\<close> keeps its value;
  and when that rectangle is empty on either axis the heat map is returned unchanged.
  The witness below is the centre \<open>(0, 0)\<close> with radius 3 on a 10 by 10 heat map, where
  the rectangle is the quadrant \<open>[0, 4) \<times> [0, 4)\<close>.
\<close>

theorem draw_gaussian_clipped:
  assumes wf: "wf_array heatmap" and r: "0 \<le> radius"
  shows "\<exists>hm'. draw_gaussian heatmap center radius k = Inr hm' \<and>
           nrows hm' = nrows heatmap \<and> ncols hm' = ncols heatmap \<and> wf_array hm' \<and>
           (\<forall>i j. i < nrows heatmap \<and> j < ncols heatmap \<and>
                  \<not> in_rect (stamp_rect heatmap center radius) i j
                  \<longrightarrow> cells hm' ! i ! j = cells heatmap ! i ! j) \<and>
           (rect_empty (stamp_rect heatmap center radius) \<longrightarrow> hm' = heatmap)"
proof -
  from draw_gaussian_char[OF r, of heatmap center k]
  consider (skip) "draw_gaussian heatmap center radius k = Inr heatmap"
    | (stamp) g hr hc gr gc where
        "draw_gaussian heatmap center radius k =
           Inr (heatmap\<lparr>cells := tabulate2 (nrows heatmap) (ncols heatmap)
                                    (stamp_value heatmap g hr hc gr gc k)\<rparr>)"
        "stamp_rect heatmap center radius = (int (fst hr), int (snd hr), int (fst hc), int (snd hc))"
    by blast
  then show ?thesis
  proof cases
    case skip
    then show ?thesis using wf by simp
  next
    case stamp
    let ?hm' = "heatmap\<lparr>cells := tabulate2 (nrows heatmap) (ncols heatmap)
                                    (stamp_value heatmap g hr hc gr gc k)\<rparr>"
    have out: "cells ?hm' ! i ! j = cells heatmap ! i ! j"
      if "i < nrows heatmap" "j < ncols heatmap"
         "\<not> in_rect (stamp_rect heatmap center radius) i j" for i j
    proof -
      have "\<not> (fst hr \<le> i \<and> i < snd hr \<and> fst hc \<le> j \<and> j < snd hc)"
        using that(3) unfolding stamp(2) in_rect_def prod.case by simp
      then have "stamp_value heatmap g hr hc gr gc k i j = cells heatmap ! i ! j"
        unfolding stamp_value_def by (simp only: if_False)
      then show ?thesis using that(1,2) by (simp add: nth_tabulate2)
    qed
    have e: "rect_empty (stamp_rect heatmap center radius) \<longrightarrow> ?hm' = heatmap"
      using draw_gaussian_rect_empty[OF r, of heatmap center k] stamp(1) by auto
    show ?thesis
      unfolding stamp(1) using out e wf_tabulate2[of heatmap] by auto
  qed
qed

lemma wf_np_zeros: "wf_array (np_zeros h w)"
  by (simp add: wf_array_def np_zeros_def list_all_iff)

lemma py_round_0: "py_round 0 = 0"
  by (simp add: py_round_def)

theorem draw_gaussian_clipped_witness:
  "\<exists>hm'. draw_gaussian (np_zeros 10 10) (0, 0) 3 1 = Inr hm' \<and>
          nrows hm' = 10 \<and> ncols hm' = 10 \<and>
          cells hm' ! 0 ! 4 = 0 \<and> cells hm' ! 4 ! 0 = 0 \<and> cells hm' ! 9 ! 9 = 0"
proof -
  have rect: "stamp_rect (np_zeros 10 10) (0, 0) 3 = (0, 4, 0, 4)"
    by (simp add: stamp_rect_def np_zeros_def py_round_0)
  have z: "cells (np_zeros 10 10) ! i ! j = 0" if "i < 10" "j < 10" for i j
    using that by (simp add: np_zeros_def)
  from draw_gaussian_clipped [OF wf_np_zeros, of 3 10 10 "(0, 0)" 1]
  obtain hm' where h: "draw_gaussian (np_zeros 10 10) (0, 0) 3 1 = Inr hm'"
      "nrows hm' = 10" "ncols hm' = 10"
      "\<And>i j. i < 10 \<and> j < 10 \<and> \<not> in_rect (0, 4, 0, 4) i j
          \<Longrightarrow> cells hm' ! i ! j = cells (np_zeros 10 10) ! i ! j"
    unfolding rect by (auto simp: np_zeros_def)
  have "cells hm' ! 0 ! 4 = 0" "cells hm' ! 4 ! 0 = 0" "cells hm' ! 9 ! 9 = 0"
    using h(4)[of 0 4] h(4)[of 4 0] h(4)[of 9 9] z by (simp_all add: in_rect_def)
  then show ?thesis using h(1-3) by blast
qed

text \<open>
  Claim C5. For every heat map, centre, radius \<open>\<ge> 0\<close> and amplitude \<open>k\<close>, stamping a
  second time with the same arguments leaves the heat map exactly as the first stamp
  left it.
\<close>

theorem draw_gaussian_idempotent:
  assumes "0 \<le> radius"
  shows "\<exists>hm'. draw_gaussian heatmap center radius k = Inr hm' \<and>
               draw_gaussian hm' center radius k = Inr hm'"
proof -
  obtain hm' where "draw_gaussian heatmap center radius k = Inr hm'"
    using draw_gaussian_char[OF assms, of heatmap center k] by blast
  then show ?thesis using draw_gaussian_idem by blast
qed

theorem draw_gaussian_idempotent_witness:
  "\<exists>hm'. draw_gaussian (np_zeros 10 10) (0, 0) 3 1 = Inr hm' \<and>
          draw_gaussian hm' (0, 0) 3 1 = Inr hm'"
  using draw_gaussian_idempotent [of 3 "np_zeros 10 10" "(0, 0)" 1] by simp

subsection \<open>Properties of the datasets\<close>

lemma labels_index_Some:
  assumes "labels_index lab = Some i"
  shows "i < 5 \<and> level_names ! i = lab"
  using assms by (auto simp: labels_index_def level_names_def split: if_splits)

lemma labels_index_level:
  assumes "c < 5"
  shows "labels_index (level_names ! c) = Some c"
proof -
  from assms consider "c = 0" | "c = 1" | "c = 2" | "c = 3" | "c = 4" by linarith
  then show ?thesis by cases (simp_all add: labels_index_def level_names_def)
qed

lemma draw_gaussian_unit:
  assumes r: "0 \<le> r" and wf: "wf_array hm" and u: "unit_cells hm"
    and d: "draw_gaussian hm c r 1 = Inr hm'"
  shows "nrows hm' = nrows hm \<and> ncols hm' = ncols hm \<and> wf_array hm' \<and> unit_cells hm'"
proof -
  from draw_gaussian_char[OF r, of hm c 1]
  consider (skip) "draw_gaussian hm c r 1 = Inr hm"
    | (stamp) g hr hc gr gc where
        "wf_array g" "unit_cells g"
        "draw_gaussian hm c r 1 =
           Inr (hm\<lparr>cells := tabulate2 (nrows hm) (ncols hm) (stamp_value hm g hr hc gr gc 1)\<rparr>)"
        "extent gr = extent hr" "extent gc = extent hc"
        "snd gr \<le> nrows g" "snd gc \<le> ncols g"
    by blast
  then show ?thesis
  proof cases
    case skip
    then show ?thesis using d wf u by simp
  next
    case stamp
    have hm': "hm' = hm\<lparr>cells := tabulate2 (nrows hm) (ncols hm) (stamp_value hm g hr hc gr gc 1)\<rparr>"
      using d stamp(3) by simp
    have v: "0 \<le> stamp_value hm g hr hc gr gc 1 i j \<and> stamp_value hm g hr hc gr gc 1 i j \<le> 1"
      if ij: "i < nrows hm" "j < ncols hm" for i j
    proof (cases "fst hr \<le> i \<and> i < snd hr \<and> fst hc \<le> j \<and> j < snd hc")
      case False
      then have "stamp_value hm g hr hc gr gc 1 i j = cells hm ! i ! j"
        unfolding stamp_value_def by (simp only: if_False)
      then show ?thesis using u ij by (simp add: unit_cells_def)
    next
      case True
      have gi: "fst gr + (i - fst hr) < nrows g"
        using True stamp(4,6) unfolding extent_def by linarith
      have gj: "fst gc + (j - fst hc) < ncols g"
        using True stamp(5,7) unfolding extent_def by linarith
      have gv: "0 \<le> cells g ! (fst gr + (i - fst hr)) ! (fst gc + (j - fst hc))"
               "cells g ! (fst gr + (i - fst hr)) ! (fst gc + (j - fst hc)) \<le> 1"
        using stamp(2) gi gj by (simp_all add: unit_cells_def)
      have hv: "0 \<le> cells hm ! i ! j" "cells hm ! i ! j \<le> 1"
        using u ij by (simp_all add: unit_cells_def)
      have "stamp_value hm g hr hc gr gc 1 i j =
              max (cells hm ! i ! j) (cells g ! (fst gr + (i - fst hr)) ! (fst gc + (j - fst hc)))"
        using True by (simp add: stamp_value_def)
      then show ?thesis using gv hv by (simp add: max_def)
    qed
    have "unit_cells hm'"
      unfolding unit_cells_def hm' using v by (simp add: nth_tabulate2)
    moreover have "wf_array hm'" unfolding hm' by (rule wf_tabulate2)
    ultimately show ?thesis by (simp add: hm')
  qed
qed

lemma stamp_all_inv:
  assumes "stamp_all s r zs hm = Inr hm'" "0 \<le> r" "length hm = 5"
    "\<forall>c < 5. channel_ok h w (hm ! c)"
  shows "length hm' = 5 \<and> (\<forall>c < 5. channel_ok h w (hm' ! c))"
  using assms
proof (induction zs arbitrary: hm)
  case Nil
  then show ?case by simp
next
  case (Cons z zs)
  obtain kp lab where z: "z = (kp, lab)" by (cases z)
  from Cons.prems(1) obtain i where i: "labels_index lab = Some i"
    unfolding z by (cases "labels_index lab") simp_all
  then have i5: "i < 5" using labels_index_Some by blast
  from Cons.prems(1) obtain ch where
    ch: "draw_gaussian (hm ! i) (fst kp / of_int s, snd kp / of_int s) r 1 = Inr ch"
    and rest: "stamp_all s r zs (hm[i := ch]) = Inr hm'"
    unfolding z using i
    by (cases "draw_gaussian (hm ! i) (fst kp / of_int s, snd kp / of_int s) r 1") simp_all
  have ok: "channel_ok h w (hm ! i)" using Cons.prems(4) i5 by simp
  have "channel_ok h w ch"
    using draw_gaussian_unit[OF Cons.prems(2) _ _ ch] ok unfolding channel_ok_def by simp
  then have "\<forall>c < 5. channel_ok h w (hm[i := ch] ! c)"
    using Cons.prems(3,4) i5 by (auto simp: nth_list_update)
  then show ?case
    using Cons.IH[OF rest Cons.prems(2)] Cons.prems(3) by simp
qed

lemma stamp_all_absent:
  assumes "stamp_all s r zs hm = Inr hm'" "c < 5" "level_names ! c \<notin> snd ` set zs"
  shows "hm' ! c = hm ! c"
  using assms
proof (induction zs arbitrary: hm)
  case Nil
  then show ?case by simp
next
  case (Cons z zs)
  obtain kp lab where z: "z = (kp, lab)" by (cases z)
  from Cons.prems(1) obtain i where i: "labels_index lab = Some i"
    unfolding z by (cases "labels_index lab") simp_all
  from Cons.prems(1) obtain ch where
    rest: "stamp_all s r zs (hm[i := ch]) = Inr hm'"
    unfolding z using i
    by (cases "draw_gaussian (hm ! i) (fst kp / of_int s, snd kp / of_int s) r 1") simp_all
  have "lab \<noteq> level_names ! c" using Cons.prems(3) unfolding z by auto
  then have "i \<noteq> c" using labels_index_Some[OF i] by auto
  moreover have "hm' ! c = hm[i := ch] ! c"
    using Cons.IH[OF rest Cons.prems(2)] Cons.prems(3) by simp
  ultimately show ?case by simp
qed

lemma stamp_all_once:
  assumes "stamp_all s r zs hm = Inr hm'" "length hm = 5" "distinct (map snd zs)" "c < 5"
    "(kp, level_names ! c) \<in> set zs"
  shows "draw_gaussian (hm ! c) (fst kp / of_int s, snd kp / of_int s) r 1 = Inr (hm' ! c)"
  using assms
proof (induction zs arbitrary: hm)
  case Nil
  then show ?case by simp
next
  case (Cons z zs)
  obtain kp0 lab where z: "z = (kp0, lab)" by (cases z)
  from Cons.prems(1) obtain i where i: "labels_index lab = Some i"
    unfolding z by (cases "labels_index lab") simp_all
  from Cons.prems(1) obtain ch where
    ch: "draw_gaussian (hm ! i) (fst kp0 / of_int s, snd kp0 / of_int s) r 1 = Inr ch"
    and rest: "stamp_all s r zs (hm[i := ch]) = Inr hm'"
    unfolding z using i
    by (cases "draw_gaussian (hm ! i) (fst kp0 / of_int s, snd kp0 / of_int s) r 1") simp_all
  have d: "lab \<notin> snd ` set zs" "distinct (map snd zs)"
    using Cons.prems(3) unfolding z by simp_all
  show ?case
  proof (cases "(kp, level_names ! c) = z")
    case True
    then have e: "kp0 = kp" "lab = level_names ! c" unfolding z by simp_all
    have ic: "i = c" using i labels_index_level[OF Cons.prems(4)] unfolding e by simp
    have "hm' ! c = hm[i := ch] ! c"
      using stamp_all_absent[OF rest Cons.prems(4)] d(1) unfolding e by simp
    then have "hm' ! c = ch" using Cons.prems(2,4) ic by simp
    then show ?thesis using ch unfolding e ic by simp
  next
    case False
    then have mem: "(kp, level_names ! c) \<in> set zs" using Cons.prems(5) by auto
    then have "lab \<noteq> level_names ! c" using d(1) by force
    then have "i \<noteq> c" using labels_index_Some[OF i] by auto
    then have same: "hm[i := ch] ! c = hm ! c" by simp
    have "length (hm[i := ch]) = 5" using Cons.prems(2) by simp
    from Cons.IH[OF rest this d(2) Cons.prems(4) mem] show ?thesis unfolding same .
  qed
qed

lemma heatmap_radius_nonneg:
  assumes "heatmap_radius hs s = Inr r"
  shows "0 \<le> r"
  using assms by (auto simp: heatmap_radius_def split: if_splits sum.splits option.splits)

lemma unit_np_zeros: "channel_ok h w (np_zeros h w)"
  by (simp add: channel_ok_def unit_cells_def wf_np_zeros) (simp add: np_zeros_def)

lemma make_heatmap_invariant:
  assumes "make_heatmap s hs hw kps labs = Inr heatmap"
  shows "heatmap_invariant s hs hw (zip kps labs) heatmap"
proof -
  obtain h w where hw: "hw = (h, w)" by (cases hw)
  define H where "H = nat (int h div s)"
  define W where "W = nat (int w div s)"
  let ?z = "replicate 5 (np_zeros H W)"
  from assms obtain r where r: "heatmap_radius hs s = Inr r"
    and st: "stamp_all s r (zip kps labs) ?z = Inr heatmap"
    unfolding make_heatmap_def hw prod.case H_def W_def
    by (cases "heatmap_radius hs s") (simp_all split: if_splits)
  have r0: "0 \<le> r" using heatmap_radius_nonneg[OF r] .
  have z5: "length ?z = 5" by simp
  have zc: "?z ! c = np_zeros H W" if "c < 5" for c using that by simp
  have zok: "\<forall>c < 5. channel_ok H W (?z ! c)" using unit_np_zeros by simp
  have inv: "length heatmap = 5" "\<forall>c < 5. channel_ok H W (heatmap ! c)"
    using stamp_all_inv[OF st r0 z5 zok] by simp_all
  have absent: "heatmap ! c = np_zeros H W"
    if "c < 5" "level_names ! c \<notin> snd ` set (zip kps labs)" for c
    using stamp_all_absent[OF st that] zc[OF that(1)] by simp
  have once: "heatmap ! c = np_zeros H W \<and> level_names ! c \<notin> snd ` set (zip kps labs) \<or>
      (\<exists>keypoint radius.
          (keypoint, level_names ! c) \<in> set (zip kps labs) \<and>
          heatmap_radius hs s = Inr radius \<and>
          draw_gaussian (np_zeros H W) (fst keypoint / of_int s, snd keypoint / of_int s)
            radius 1 = Inr (heatmap ! c))"
    if c: "c < 5" and d: "distinct (map snd (zip kps labs))" for c
  proof (cases "level_names ! c \<in> snd ` set (zip kps labs)")
    case False
    then show ?thesis using absent[OF c] by simp
  next
    case True
    then obtain kp where kp: "(kp, level_names ! c) \<in> set (zip kps labs)" by force
    have "draw_gaussian (np_zeros H W) (fst kp / of_int s, snd kp / of_int s) r 1
            = Inr (heatmap ! c)"
      using stamp_all_once[OF st z5 d c kp] zc[OF c] by simp
    then show ?thesis using kp r by blast
  qed
  show ?thesis
    unfolding heatmap_invariant_def hw prod.case Let_def H_def[symmetric] W_def[symmetric]
    using inv absent once unfolding channel_ok_def by blast
qed

lemma encode_example_invariant:
  assumes "encode_example env s hs (img, kps, labs, sid) = Inr (out_img, heatmap, sid', ret)"
  shows "sid' = sid \<and> heatmap_invariant s hs (shape_hw env img) (zip kps labs) heatmap"
proof -
  from assms obtain hm where hm: "make_heatmap s hs (shape_hw env img) kps labs = Inr hm"
    unfolding encode_example_def prod.case
    by (cases "make_heatmap s hs (shape_hw env img) kps labs") simp_all
  from assms have "heatmap = hm \<and> sid' = sid"
    unfolding encode_example_def prod.case hm sum.case
    by (cases "fill_keypoints (zip kps labs) (replicate 5 (- 1, - 1))") simp_all
  then show ?thesis using make_heatmap_invariant[OF hm] by simp
qed

text \<open>
  Claim C6. For every example that \<open>__getitem__\<close> of either dataset returns, the heat map
  satisfies \<open>heatmap_invariant\<close> with respect to the image, key points and labels that
  the transform returned: five channels of shape \<open>(H div stride, W div stride)\<close>, every
  value in \<open>[0, 1]\<close>, all-zero channels for the levels that did not survive, and, the
  surviving labels being pairwise distinct (the transform only drops points), each
  other channel stamped exactly once on the zero array.
\<close>

theorem getitem_heatmap_invariant:
  "(getitem_v1 env ds1 idx = Inr (out_img, heatmap, sid, ret) \<longrightarrow>
      (\<exists>img keypoints class_labels.
          prepare_v1 env ds1 idx = Inr (img, keypoints, class_labels, sid) \<and>
          heatmap_invariant (stride ds1) (heatmap_size ds1) (shape_hw env img)
            (zip keypoints class_labels) heatmap)) \<and>
   (getitem_v2 env ds2 idx = Inr (out_img, heatmap, sid, ret) \<longrightarrow>
      (\<exists>img keypoints class_labels.
          prepare_v2 env ds2 idx = Inr (img, keypoints, class_labels, sid) \<and>
          heatmap_invariant (stride ds2) (heatmap_size ds2) (shape_hw env img)
            (zip keypoints class_labels) heatmap))"
proof (intro conjI impI)
  assume a: "getitem_v1 env ds1 idx = Inr (out_img, heatmap, sid, ret)"
  then obtain img kps labs sid0 where p: "prepare_v1 env ds1 idx = Inr (img, kps, labs, sid0)"
    unfolding getitem_v1_def by (cases "prepare_v1 env ds1 idx") auto
  from a have "encode_example env (stride ds1) (heatmap_size ds1) (img, kps, labs, sid0)
                 = Inr (out_img, heatmap, sid, ret)"
    unfolding getitem_v1_def p by simp
  from encode_example_invariant[OF this] p
  show "\<exists>img keypoints class_labels.
          prepare_v1 env ds1 idx = Inr (img, keypoints, class_labels, sid) \<and>
          heatmap_invariant (stride ds1) (heatmap_size ds1) (shape_hw env img)
            (zip keypoints class_labels) heatmap" by blast
next
  assume a: "getitem_v2 env ds2 idx = Inr (out_img, heatmap, sid, ret)"
  then obtain img kps labs sid0 where p: "prepare_v2 env ds2 idx = Inr (img, kps, labs, sid0)"
    unfolding getitem_v2_def by (cases "prepare_v2 env ds2 idx") auto
  from a have "encode_example env (stride ds2) (heatmap_size ds2) (img, kps, labs, sid0)
                 = Inr (out_img, heatmap, sid, ret)"
    unfolding getitem_v2_def p by simp
  from encode_example_invariant[OF this] p
  show "\<exists>img keypoints class_labels.
          prepare_v2 env ds2 idx = Inr (img, keypoints, class_labels, sid) \<and>
          heatmap_invariant (stride ds2) (heatmap_size ds2) (shape_hw env img)
            (zip keypoints class_labels) heatmap" by blast
qed


lemma level_names_length: "length level_names = 5"
  by (simp add: level_names_def)

lemma level_name_index:
  assumes "lab \<in> set level_names"
  obtains c where "c < 5" "lab = level_names ! c"
proof -
  from assms obtain c where "c < length level_names" "level_names ! c = lab"
    unfolding in_set_conv_nth by blast
  then show ?thesis using that level_names_length by simp
qed

lemma heatmap_radius_returns:
  assumes "0 < s" "0 \<le> fst hs" "0 \<le> snd hs"
  shows "\<exists>r. heatmap_radius hs s = Inr r"
proof -
  have a: "0 \<le> real_of_int (fst hs div s)" "0 \<le> real_of_int (snd hs div s)"
    using assms by (simp_all add: pos_imp_zdiv_nonneg_iff)
  have "\<exists>v. gaussian_radius (of_int (fst hs div s), of_int (snd hs div s)) (7 / 10) = Inr (Some v)"
    using gaussian_radius_eq[OF _ _ a, of "7 / 10"] by simp
  then show ?thesis using assms(1) unfolding heatmap_radius_def by auto
qed

lemma stamp_all_returns:
  assumes "0 \<le> r" "snd ` set zs \<subseteq> set level_names"
  shows "\<exists>hm'. stamp_all s r zs hm = Inr hm'"
  using assms
proof (induction zs arbitrary: hm)
  case Nil
  then show ?case by simp
next
  case (Cons z zs)
  obtain kp lab where z: "z = (kp, lab)" by (cases z)
  have "lab \<in> set level_names" using Cons.prems(2) unfolding z by simp
  then obtain c where "c < 5" "lab = level_names ! c"
    by (rule level_name_index)
  then have i: "labels_index lab = Some c" using labels_index_level by simp
  obtain ch where ch: "draw_gaussian (hm ! c) (fst kp / of_int s, snd kp / of_int s) r 1 = Inr ch"
    using draw_gaussian_char[OF Cons.prems(1), of "hm ! c" _ 1] by blast
  have "\<exists>hm'. stamp_all s r zs (hm[c := ch]) = Inr hm'"
    using Cons.IH[OF Cons.prems(1)] Cons.prems(2) by simp
  then show ?case unfolding z by (simp add: i ch)
qed

lemma fill_keypoints_returns:
  assumes "snd ` set zs \<subseteq> set level_names"
  shows "\<exists>ret'. fill_keypoints zs ret = Inr ret'"
  using assms
proof (induction zs arbitrary: ret)
  case Nil
  then show ?case by simp
next
  case (Cons z zs)
  obtain kp lab where z: "z = (kp, lab)" by (cases z)
  have "lab \<in> set level_names" using Cons.prems unfolding z by simp
  then obtain c where "c < 5" "lab = level_names ! c"
    by (rule level_name_index)
  then have i: "labels_index lab = Some c" using labels_index_level by simp
  show ?case unfolding z using Cons.IH[of "ret[c := kp]"] Cons.prems by (simp add: i)
qed

lemma encode_example_returns:
  assumes "0 < s" "0 \<le> fst hs" "0 \<le> snd hs" "set labs \<subseteq> set level_names"
  shows "\<exists>out heatmap ret.
           encode_example env s hs (img, kps, labs, sid) = Inr (out, heatmap, sid, ret)"
proof -
  obtain h w where hw: "shape_hw env img = (h, w)" by (cases "shape_hw env img")
  obtain r where r: "heatmap_radius hs s = Inr r" using heatmap_radius_returns[OF assms(1-3)] by blast
  have r0: "0 \<le> r" using heatmap_radius_nonneg[OF r] .
  have sub: "snd ` set (zip kps labs) \<subseteq> set level_names"
    using assms(4) by (auto dest: set_zip_rightD)
  have d: "\<not> (int h div s < 0 \<or> int w div s < 0)"
    using assms(1) by (simp add: pos_imp_zdiv_neg_iff)
  obtain hm where "stamp_all s r (zip kps labs)
      (replicate 5 (np_zeros (nat (int h div s)) (nat (int w div s)))) = Inr hm"
    using stamp_all_returns[OF r0 sub] by blast
  then have mh: "make_heatmap s hs (h, w) kps labs = Inr hm"
    unfolding make_heatmap_def prod.case using assms(1) d r by simp
  obtain ret where "fill_keypoints (zip kps labs) (replicate 5 (- 1, - 1)) = Inr ret"
    using fill_keypoints_returns[OF sub] by blast
  then show ?thesis unfolding encode_example_def prod.case hw mh by simp
qed

lemma replicate_5: "replicate 5 v = [v, v, v, v, v]"
  by (simp add: numeral_eq_Suc)

lemma py_round_half: "py_round (1 / 2) = 0"
proof -
  have "\<lfloor>1 / 2 :: real\<rfloor> = 0" by simp
  then show ?thesis unfolding py_round_def Let_def by simp
qed

lemma demo_prepare_v1:
  "prepare_v1 demo_env demo_v1 0 =
     Inr ((40, 40), replicate 5 (0, 0), level_names, 7)"
  by (simp add: prepare_v1_def demo_v1_def demo_env_def demo_row_def iloc_def read_image_v1_def
      level_names_def apply_transform_def py_round_half replicate_5)

lemma demo_tokens:
  "instance_token demo_env ''s_1'' = Inr 1"
  "instance_token demo_env ''s_2'' = Inr 2"
  "instance_token demo_env ''s_3'' = Inr 3"
  by (simp_all add: instance_token_def demo_env_def)

lemma demo_select:
  "select_n_elements [''s_1'', ''s_2'', ''s_3''] 3 1 = Inr [''s_1'', ''s_2'', ''s_3'']"
proof -
  have i: "select_indices 3 3 1 = Inr [0, 1, 2]"
    using select_indices_odd[of 3 3 1] by (simp add: np_clip_def upt_rec numeral_nat)
  have "np_take [''s_1'', ''s_2'', ''s_3''] [0, 1, 2] = Inr (map (\<lambda>j. [''s_1'', ''s_2'', ''s_3''] ! nat j) [0, 1, 2])"
    by (rule np_take_in_range) simp
  then show ?thesis unfolding select_n_elements_def using i by (simp add: numeral_nat)
qed

lemma demo_prepare_v2:
  "prepare_v2 demo_env (demo_v2 2) 0 =
     Inr ((512, 512), replicate 5 (256, 256), level_names, 7)"
proof -
  have f: "find_base_index demo_env [''s_1'', ''s_2'', ''s_3''] 2 0 = Inr 1"
    by (simp add: demo_tokens)
  have d: "sorted_iterdir demo_env p = Inr [''s_1'', ''s_2'', ''s_3'']" for p
    by (simp add: demo_env_def)
  have k: "keypoints_v2 (demo_row 2) level_names = Inr (replicate 5 (1 / 2, 1 / 2), level_names)"
    by (simp add: demo_row_def level_names_def replicate_5)
  have ri: "read_images demo_env [''s_1'', ''s_2'', ''s_3''] = Inr [(512, 512), (512, 512), (512, 512)]"
    by (simp add: read_image_v2_def demo_env_def)
  have st: "np_stack_last demo_env [(512, 512), (512, 512), (512, 512)] = Inr (512, 512)"
    by (simp add: demo_env_def)
  have sh: "shape_hw demo_env (512, 512) = (512, 512)" by (simp add: demo_env_def)
  have row: "iloc (train_df (demo_v2 2)) 0 = Inr (demo_row 2)"
    by (simp add: iloc_def demo_v2_def)
  have flds: "instance_number (demo_row 2) = 2" "study_id (demo_row 2) = 7"
    "use_center (demo_v2 2)" "num_slices (demo_v2 2) = 3" "transform (demo_v2 2) = None"
    by (simp_all add: demo_row_def demo_v2_def)
  show ?thesis
    unfolding prepare_v2_def row sum.case d f flds k prod.case Let_def
    by (simp add: demo_select ri st sh apply_transform_def replicate_5 del: read_images.simps)
qed

theorem getitem_heatmap_invariant_witness:
  "(\<exists>out_img heatmap ret.
      getitem_v1 demo_env demo_v1 0 = Inr (out_img, heatmap, 7, ret) \<and>
      heatmap_invariant 4 (20, 20) (40, 40) (zip (replicate 5 (0, 0)) level_names) heatmap) \<and>
   (\<exists>out_img heatmap ret.
      getitem_v2 demo_env (demo_v2 2) 0 = Inr (out_img, heatmap, 7, ret) \<and>
      heatmap_invariant 4 (20, 20) (512, 512) (zip (replicate 5 (256, 256)) level_names) heatmap)"
proof (intro conjI)
  obtain out_img heatmap ret where
    g: "getitem_v1 demo_env demo_v1 0 = Inr (out_img, heatmap, 7, ret)"
    using encode_example_returns[of 4 "(20, 20)" level_names demo_env "(40, 40)" "replicate 5 (0, 0)" 7]
    unfolding getitem_v1_def demo_prepare_v1 by (auto simp: demo_v1_def)
  from getitem_heatmap_invariant [of demo_env demo_v1 0 out_img heatmap 7 ret, THEN conjunct1] g
  have "heatmap_invariant 4 (20, 20) (40, 40) (zip (replicate 5 (0, 0)) level_names) heatmap"
    unfolding demo_prepare_v1 by (simp add: demo_v1_def demo_env_def)
  then show "\<exists>out_img heatmap ret.
      getitem_v1 demo_env demo_v1 0 = Inr (out_img, heatmap, 7, ret) \<and>
      heatmap_invariant 4 (20, 20) (40, 40) (zip (replicate 5 (0, 0)) level_names) heatmap"
    using g by blast
next
  obtain out_img heatmap ret where
    g: "getitem_v2 demo_env (demo_v2 2) 0 = Inr (out_img, heatmap, 7, ret)"
    using encode_example_returns[of 4 "(20, 20)" level_names demo_env "(512, 512)" "replicate 5 (256, 256)" 7]
    unfolding getitem_v2_def demo_prepare_v2 by (auto simp: demo_v2_def)
  from getitem_heatmap_invariant [of demo_env _ 0 out_img heatmap 7 ret "demo_v2 2", THEN conjunct2] g
  have "heatmap_invariant 4 (20, 20) (512, 512) (zip (replicate 5 (256, 256)) level_names) heatmap"
    unfolding demo_prepare_v2 by (simp add: demo_v2_def demo_env_def)
  then show "\<exists>out_img heatmap ret.
      getitem_v2 demo_env (demo_v2 2) 0 = Inr (out_img, heatmap, 7, ret) \<and>
      heatmap_invariant 4 (20, 20) (512, 512) (zip (replicate 5 (256, 256)) level_names) heatmap"
    using g by blast
qed





subsection \<open>Properties of the losses\<close>

lemma ln2_gt_half: "1 / 2 < ln (2::real)"
proof -
  have "exp (1 / 2 :: real) * exp (1 / 2) = exp 1" by (simp add: exp_add [symmetric])
  then have "(exp (1 / 2 :: real))\<^sup>2 \<le> 3" using exp_le by (simp add: power2_eq_square)
  then have "(exp (1 / 2 :: real))\<^sup>2 < 2\<^sup>2" by simp
  then have "exp (1 / 2 :: real) < 2" by (rule power2_less_imp_less) simp
  then have "exp (1 / 2 :: real) < exp (ln 2)" by simp
  then show ?thesis by (simp only: exp_less_cancel_iff)
qed

lemma log_softmax_00: "log_softmax [0, 0] = [- ln 2, - ln 2]"
  by (simp add: log_softmax_def)

lemma focal_example:
  "focal_forward \<lparr>alpha = Some [1, 4], gamma = 0, reduction = ''mean'', ignore_index = - 100\<rparr>
     (Plain [[0, 0]] [1]) = Inr (Scalar (Some (4 * ln 2)))"
  by (simp add: focal_forward_def flatten_batch_def nll_loss_none_def log_softmax_00
      class_weight_def torch_pow_def Let_def)

lemma ce_example:
  "weighted_cross_entropy (Some [1, 4]) (- 100) ''mean'' (Plain [[0, 0]] [1])
     = Inr (Scalar (Some (ln 2)))"
  by (simp add: weighted_cross_entropy_def flatten_batch_def log_softmax_00
      class_weight_def Let_def)


lemma unignored_targets:
  assumes "length x = length y"
  shows "filter (\<lambda>t. t \<noteq> ign) y = map snd (unignored ign x y)"
proof -
  have e: "(\<lambda>(row :: real list, t). t \<noteq> ign) = ((\<lambda>t. t \<noteq> ign) \<circ> snd)" by auto
  have "map snd (filter ((\<lambda>t. t \<noteq> ign) \<circ> snd) (zip x y)) = filter (\<lambda>t. t \<noteq> ign) (map snd (zip x y))"
    by (simp only: filter_map)
  moreover have "map snd (zip x y) = y" using assms by simp
  ultimately show ?thesis unfolding unignored_def e by simp
qed

lemma length_log_softmax: "length (log_softmax row) = length row"
  by (simp add: log_softmax_def)

lemma nll_on_unignored:
  assumes "list_all (\<lambda>(row, t). t = ign \<or> 0 \<le> t \<and> t < int (length row)) (zip x y)"
    and "case weight of None \<Rightarrow> True | Some w \<Rightarrow> list_all (\<lambda>row. length row = length w) x"
  shows "nll_loss_none weight (map (\<lambda>z. log_softmax (fst z)) (unignored ign x y))
           (map snd (unignored ign x y)) = Inr (map (row_loss weight) (unignored ign x y))"
proof -
  let ?zs = "unignored ign x y"
  have z: "zip (map (\<lambda>z. log_softmax (fst z)) ?zs) (map snd ?zs)
             = map (\<lambda>z. (log_softmax (fst z), snd z)) ?zs"
    by (simp add: zip_map_map zip_same_conv_map)
  have sub: "set ?zs \<subseteq> set (zip x y)" unfolding unignored_def by auto
  have rng: "list_all (\<lambda>(row, t). 0 \<le> t \<and> t < int (length row))
               (map (\<lambda>z. (log_softmax (fst z), snd z)) ?zs)"
    using assms(1) unfolding unignored_def
    by (auto simp: list_all_iff length_log_softmax)
  have w: "case weight of None \<Rightarrow> True
           | Some w \<Rightarrow> list_all (\<lambda>row. length row = length w) (map (\<lambda>z. log_softmax (fst z)) ?zs)"
  proof (cases weight)
    case None
    then show ?thesis by simp
  next
    case (Some w)
    have "fst z \<in> set x" if "z \<in> set ?zs" for z
    proof -
      have "z \<in> set (zip x y)" using that sub by blast
      then show ?thesis using set_zip_leftD[of "fst z" "snd z" x y] by simp
    qed
    then show ?thesis using assms(2) Some
      by (auto simp: list_all_iff length_log_softmax)
  qed
  have m: "map (\<lambda>(row, t). - class_weight weight t * (row ! nat t))
             (map (\<lambda>z. (log_softmax (fst z), snd z)) ?zs) = map (row_loss weight) ?zs"
    by (simp add: row_loss_def)
  show ?thesis unfolding nll_loss_none_def z using rng w m by simp
qed

lemma focal_gamma0:
  assumes v: "valid_batch (alpha self) (ignore_index self) b" and g: "gamma self = 0"
    and fb: "flatten_batch b = (x, y)"
  shows "focal_forward self b =
     (if unignored (ignore_index self) x y = [] then Inr (Scalar (Some 0))
      else Inr (reduce_losses (reduction self)
                  (map (row_loss (alpha self)) (unignored (ignore_index self) x y))))"
proof -
  let ?ign = "ignore_index self"
  let ?zs = "unignored ?ign x y"
  have len: "length x = length y"
    and rng: "list_all (\<lambda>(row, t). t = ?ign \<or> 0 \<le> t \<and> t < int (length row)) (zip x y)"
    and w: "case alpha self of None \<Rightarrow> True | Some w \<Rightarrow> list_all (\<lambda>row. length row = length w) x"
    using v unfolding valid_batch_def fb prod.case by simp_all
  have y': "filter (\<lambda>t. t \<noteq> ?ign) y = map snd ?zs" by (rule unignored_targets[OF len])
  have x': "map log_softmax (map fst (filter (\<lambda>(row, t). t \<noteq> ?ign) (zip x y)))
              = map (\<lambda>z. log_softmax (fst z)) ?zs"
    unfolding unignored_def by simp
  have nll: "nll_loss_none (alpha self) (map (\<lambda>z. log_softmax (fst z)) ?zs) (map snd ?zs)
               = Inr (map (row_loss (alpha self)) ?zs)"
    by (rule nll_on_unignored[OF rng w])
  have loss: "map (\<lambda>(f, c). f * c)
        (zip (map (\<lambda>p. torch_pow (1 - p) 0)
               (map exp (map (\<lambda>(row, t). row ! nat t)
                  (zip (map (\<lambda>z. log_softmax (fst z)) ?zs) (map snd ?zs)))))
             (map (row_loss (alpha self)) ?zs))
      = map (row_loss (alpha self)) ?zs"
    by (simp add: torch_pow_def zip_map_map zip_same_conv_map)
  show ?thesis
  proof (cases "?zs = []")
    case True
    then show ?thesis unfolding focal_forward_def fb prod.case Let_def y' by simp
  next
    case False
    then show ?thesis
      unfolding focal_forward_def fb prod.case Let_def y' x' nll sum.case g loss
      using len by (simp add: reduce_losses_def)
  qed
qed

lemma sum_list_unignored:
  "sum_list (map (\<lambda>(row, t). if t = ign then 0 else row_loss weight (row, t)) zs)
     = sum_list (map (row_loss weight) (filter (\<lambda>(row, t). t \<noteq> ign) zs))"
  by (induction zs) auto

lemma total_weight_None:
  "sum_list (map (\<lambda>t. if t = ign then 0 else class_weight None t) y)
     = real (length (filter (\<lambda>t. t \<noteq> ign) y))"
  by (induction y) (auto simp: class_weight_def)

lemma cross_entropy_valid:
  assumes v: "valid_batch weight ign b" and fb: "flatten_batch b = (x, y)"
  shows "weighted_cross_entropy weight ign red b =
     Inr (let losses = map (\<lambda>(row, t). if t = ign then 0 else row_loss weight (row, t)) (zip x y);
              total_weight = sum_list (map (\<lambda>t. if t = ign then 0 else class_weight weight t) y)
          in if red = ''mean''
             then Scalar (if total_weight = 0 then None else Some (sum_list losses / total_weight))
             else if red = ''sum'' then Scalar (Some (sum_list losses))
             else Vector losses)"
proof -
  have len: "length x = length y"
    and rng: "list_all (\<lambda>(row, t). t = ign \<or> 0 \<le> t \<and> t < int (length row)) (zip x y)"
    and w: "case weight of None \<Rightarrow> True | Some w \<Rightarrow> list_all (\<lambda>row. length row = length w) x"
    using v unfolding valid_batch_def fb prod.case by simp_all
  have m: "map (\<lambda>(row, t). if t = ign then 0
                            else - class_weight weight t * (log_softmax row ! nat t)) (zip x y)
           = map (\<lambda>(row, t). if t = ign then 0 else row_loss weight (row, t)) (zip x y)"
    by (auto simp: row_loss_def)
  show ?thesis
    unfolding weighted_cross_entropy_def fb prod.case m using len rng w by (simp add: Let_def)
qed


lemma unignored_losses:
  assumes "length x = length y"
  shows "map snd (filter (\<lambda>(t, l). t \<noteq> ign)
           (zip y (map (\<lambda>(row, t). if t = ign then 0 else row_loss weight (row, t)) (zip x y))))
         = map (row_loss weight) (unignored ign x y)"
  using assms unfolding unignored_def by (induction x y rule: list_induct2) auto

text \<open>
  Claim C7, as amended. On valid inputs \<open>FocalLoss\<close> with \<open>gamma = 0\<close> returns, for the
  reduction \<^verbatim>\<open>'sum'\<close>, the value of plain weighted cross-entropy with the same weights,
  targets, ignore index and reduction; for \<^verbatim>\<open>'mean'\<close>, that sum divided by the number of
  targets that are not ignored (and 0 when all are ignored), which is the plain weighted
  cross-entropy mean when there are no class weights and some target is not ignored;
  for \<^verbatim>\<open>'none'\<close>, the plain per-row losses of the rows that are not ignored.
\<close>

theorem focal_gamma0_vs_cross_entropy:
  assumes v: "valid_batch (alpha self) (ignore_index self) b" and g: "gamma self = 0"
  shows "(reduction self = ''sum'' \<longrightarrow>
            focal_forward self b =
              weighted_cross_entropy (alpha self) (ignore_index self) ''sum'' b) \<and>
         (reduction self = ''mean'' \<longrightarrow>
            (\<exists>s. weighted_cross_entropy (alpha self) (ignore_index self) ''sum'' b
                    = Inr (Scalar (Some s)) \<and>
                 focal_forward self b =
                   Inr (Scalar (Some (if count_unignored (ignore_index self) b = 0 then 0
                                      else s / real (count_unignored (ignore_index self) b)))))) \<and>
         (reduction self = ''mean'' \<and> alpha self = None \<and>
          0 < count_unignored (ignore_index self) b \<longrightarrow>
            focal_forward self b =
              weighted_cross_entropy None (ignore_index self) ''mean'' b) \<and>
         (reduction self \<notin> {''mean'', ''sum''} \<and> 0 < count_unignored (ignore_index self) b \<longrightarrow>
            (\<exists>ls. weighted_cross_entropy (alpha self) (ignore_index self) (reduction self) b
                     = Inr (Vector ls) \<and>
                  focal_forward self b =
                    Inr (Vector (map snd (filter (\<lambda>(t, l). t \<noteq> ignore_index self)
                                            (zip (snd (flatten_batch b)) ls)))))) \<and>
         (count_unignored (ignore_index self) b = 0 \<longrightarrow>
            focal_forward self b = Inr (Scalar (Some 0)))"
proof -
  obtain x y where fb: "flatten_batch b = (x, y)" by (cases "flatten_batch b")
  let ?ign = "ignore_index self"
  let ?zs = "unignored ?ign x y"
  let ?L = "row_loss (alpha self)"
  let ?ls = "map (\<lambda>(row, t). if t = ?ign then 0 else ?L (row, t)) (zip x y)"
  have len: "length x = length y" using v unfolding valid_batch_def fb prod.case by simp
  have n: "count_unignored ?ign b = length ?zs"
    unfolding count_unignored_def fb snd_conv unignored_targets[OF len] by simp
  have z0: "?zs = [] \<longleftrightarrow> count_unignored ?ign b = 0" using n by simp
  note f = focal_gamma0[OF v g fb]
  note c = cross_entropy_valid[OF v fb]
  have s: "sum_list ?ls = sum_list (map ?L ?zs)"
    unfolding unignored_def by (rule sum_list_unignored)
  have p1: "focal_forward self b = weighted_cross_entropy (alpha self) ?ign ''sum'' b"
    if "reduction self = ''sum''"
    unfolding f c[of "''sum''"] using that s by (simp add: reduce_losses_def Let_def)
  have p2: "\<exists>s. weighted_cross_entropy (alpha self) ?ign ''sum'' b = Inr (Scalar (Some s)) \<and>
       focal_forward self b =
         Inr (Scalar (Some (if count_unignored ?ign b = 0 then 0
                            else s / real (count_unignored ?ign b))))"
    if "reduction self = ''mean''"
    unfolding f c[of "''sum''"] using that s z0 n by (simp add: reduce_losses_def Let_def)
  have p3: "focal_forward self b = weighted_cross_entropy None ?ign ''mean'' b"
    if "reduction self = ''mean''" "alpha self = None" "0 < count_unignored ?ign b"
  proof -
    have tw: "sum_list (map (\<lambda>t. if t = ?ign then 0 else class_weight None t) y)
                = real (length ?zs)"
      unfolding total_weight_None unignored_targets[OF len] by simp
    have c': "weighted_cross_entropy None ?ign ''mean'' b =
        Inr (Scalar (Some (sum_list ?ls / real (length ?zs))))"
      using c[of "''mean''"] that(2,3) n unfolding that(2) tw by (simp add: Let_def)
    show ?thesis unfolding f c' using that s z0 by (simp add: reduce_losses_def)
  qed
  have p4: "\<exists>ls. weighted_cross_entropy (alpha self) ?ign (reduction self) b = Inr (Vector ls) \<and>
       focal_forward self b =
         Inr (Vector (map snd (filter (\<lambda>(t, l). t \<noteq> ?ign) (zip (snd (flatten_batch b)) ls))))"
    if "reduction self \<notin> {''mean'', ''sum''}" "0 < count_unignored ?ign b"
  proof -
    have "weighted_cross_entropy (alpha self) ?ign (reduction self) b = Inr (Vector ?ls)"
      using c[of "reduction self"] that(1) by (simp add: Let_def)
    moreover have "focal_forward self b = Inr (Vector (map ?L ?zs))"
      unfolding f using that z0 by (simp add: reduce_losses_def)
    ultimately show ?thesis
      unfolding fb snd_conv using unignored_losses[OF len, of ?ign "alpha self"] by simp
  qed
  have p5: "focal_forward self b = Inr (Scalar (Some 0))" if "count_unignored ?ign b = 0"
    unfolding f using that z0 by simp
  show ?thesis using p1 p2 p3 p4 p5 by blast
qed

theorem focal_gamma0_vs_cross_entropy_witness:
  "focal_forward \<lparr>alpha = Some [1, 4], gamma = 0, reduction = ''sum'', ignore_index = - 100\<rparr>
      (Plain [[0, 0]] [1])
     = weighted_cross_entropy (Some [1, 4]) (- 100) ''sum'' (Plain [[0, 0]] [1]) \<and>
   (\<exists>s. weighted_cross_entropy (Some [1, 4]) (- 100) ''sum'' (Plain [[0, 0]] [1])
            = Inr (Scalar (Some s)) \<and>
        focal_forward \<lparr>alpha = Some [1, 4], gamma = 0, reduction = ''mean'', ignore_index = - 100\<rparr>
          (Plain [[0, 0]] [1]) = Inr (Scalar (Some (s / 1))))"
proof -
  have v: "valid_batch (Some [1, 4]) (- 100) (Plain [[0, 0]] [1])"
    by (simp add: valid_batch_def flatten_batch_def)
  have n: "count_unignored (- 100) (Plain [[0, 0]] [1]) = 1"
    by (simp add: count_unignored_def flatten_batch_def)
  show ?thesis
    using focal_gamma0_vs_cross_entropy
        [of "\<lparr>alpha = Some [1, 4], gamma = 0, reduction = ''sum'', ignore_index = - 100\<rparr>"
            "Plain [[0, 0]] [1]"]
      focal_gamma0_vs_cross_entropy
        [of "\<lparr>alpha = Some [1, 4], gamma = 0, reduction = ''mean'', ignore_index = - 100\<rparr>"
            "Plain [[0, 0]] [1]"]
      v n by simp
qed

text \<open>
  Claim C7 as stated fails for the reduction \<^verbatim>\<open>'mean'\<close> with class weights: for one row
  of logits \<open>[0, 0]\<close>, target 1 and weights \<open>[1, 4]\<close> the focal loss with \<open>gamma = 0\<close>
  is \<open>4 ln 2\<close>, the plain weighted cross-entropy is \<open>ln 2\<close>: the focal loss divides by
  the number of rows, cross-entropy by the sum of their weights.
\<close>

theorem focal_gamma0_mean_counterexample:
  "valid_batch (Some [1, 4]) (- 100) (Plain [[0, 0]] [1]) \<and>
   focal_forward \<lparr>alpha = Some [1, 4], gamma = 0, reduction = ''mean'', ignore_index = - 100\<rparr>
     (Plain [[0, 0]] [1]) = Inr (Scalar (Some (4 * ln 2))) \<and>
   weighted_cross_entropy (Some [1, 4]) (- 100) ''mean'' (Plain [[0, 0]] [1])
     = Inr (Scalar (Some (ln 2))) \<and>
   1 < 4 * ln 2 - ln (2 :: real)"
  using focal_example ce_example ln2_gt_half
  by (simp add: valid_batch_def flatten_batch_def)

text \<open>
  The two other places where the losses part, both with an ignored target: when every
  target is ignored the focal loss is 0 and the cross-entropy mean is NaN, and for the
  reduction \<^verbatim>\<open>'none'\<close> the focal loss has no entry for an ignored row where
  cross-entropy has a 0.
\<close>

lemma focal_gamma0_ignored_examples:
  "focal_forward \<lparr>alpha = None, gamma = 0, reduction = ''mean'', ignore_index = - 100\<rparr>
     (Plain [[0, 0]] [- 100]) = Inr (Scalar (Some 0)) \<and>
   weighted_cross_entropy None (- 100) ''mean'' (Plain [[0, 0]] [- 100]) = Inr (Scalar None) \<and>
   focal_forward \<lparr>alpha = None, gamma = 0, reduction = ''none'', ignore_index = - 100\<rparr>
     (Plain [[0, 0], [0, 0]] [1, - 100]) = Inr (Vector [ln 2]) \<and>
   weighted_cross_entropy None (- 100) ''none'' (Plain [[0, 0], [0, 0]] [1, - 100])
     = Inr (Vector [ln 2, 0])"
  by (simp add: focal_forward_def weighted_cross_entropy_def flatten_batch_def nll_loss_none_def
      log_softmax_00 class_weight_def torch_pow_def Let_def)

lemma level_losses_all_ignored:
  assumes wf: "wf_tensor2 lt"
    and ign: "\<forall>row \<in> set (t2_rows lt). \<forall>v \<in> set row. v = - 100"
  shows "(\<exists>e. level_losses ll (Some lt) idxs = Inl e) \<or> level_losses ll (Some lt) idxs = Inr []"
proof (induction idxs)
  case Nil
  then show ?case by simp
next
  case (Cons i idxs)
  show ?case
  proof (cases ll)
    case None
    then show ?thesis by simp
  next
    case (Some l)
    show ?thesis
    proof (cases "i < t2_cols l \<and> i < t2_cols lt")
      case False
      then show ?thesis using Some by (auto simp: column2_def)
    next
      case True
      have "v = - 100" if "v \<in> set (map (\<lambda>row. row ! i) (t2_rows lt))" for v
      proof -
        from that obtain row where row: "row \<in> set (t2_rows lt)" "v = row ! i" by auto
        then have "i < length row" using wf True by (simp add: wf_tensor2_def list_all_iff)
        then show ?thesis using ign row by simp
      qed
      then have "\<not> list_ex (\<lambda>v. v \<noteq> - 100) (map (\<lambda>row. row ! i) (t2_rows lt))"
        unfolding list_ex_iff by blast
      then show ?thesis using Some True Cons.IH by (simp add: column2_def)
    qed
  qed
qed

lemma level_losses_all_ignored_shaped:
  assumes wf: "wf_tensor2 lt"
    and ign: "\<forall>row \<in> set (t2_rows lt). \<forall>v \<in> set row. v = - 100"
    and sh: "\<forall>i \<in> set idxs. i < t2_cols l \<and> i < t2_cols lt"
  shows "level_losses (Some l) (Some lt) idxs = Inr []"
  using sh
proof (induction idxs)
  case Nil
  then show ?case by simp
next
  case (Cons i idxs)
  then have i: "i < t2_cols l" "i < t2_cols lt" by simp_all
  have "v = - 100" if "v \<in> set (map (\<lambda>row. row ! i) (t2_rows lt))" for v
  proof -
    from that obtain row where row: "row \<in> set (t2_rows lt)" "v = row ! i" by auto
    then have "i < length row" using wf i by (simp add: wf_tensor2_def list_all_iff)
    then show ?thesis using ign row by simp
  qed
  then have "\<not> list_ex (\<lambda>v. v \<noteq> - 100) (map (\<lambda>row. row ! i) (t2_rows lt))"
    unfolding list_ex_iff by blast
  then show ?case using i Cons by (simp add: column2_def)
qed

text \<open>
  Claim C2. With \<open>level_loss_weight > 0\<close> and level targets that are all \<open>-100\<close>,
  \<open>RSNA2024Loss.forward\<close> raises: no level contributes a loss, and the reduction over the
  empty list of level losses fails with \<^verbatim>\<open>RuntimeError\<close> whenever the overall loss was
  computed and the level tensors have a column per level. It never returns a zero or
  skipped level loss.
\<close>

theorem forward_all_ignored_levels_raises:
  assumes w: "0 < level_loss_weight self"
    and wf: "wf_tensor2 level_targets"
    and ign: "\<forall>row \<in> set (t2_rows level_targets). \<forall>v \<in> set row. v = - 100"
  shows "(\<exists>e. forward self logits targets level_logits (Some level_targets) = Inl e) \<and>
         (\<forall>overall ll.
            overall_loss self logits targets = Inr overall \<and> level_logits = Some ll \<and>
            length (levels self) \<le> t2_cols ll \<and> length (levels self) \<le> t2_cols level_targets
            \<longrightarrow> forward self logits targets level_logits (Some level_targets) = Inl RuntimeError)"
proof -
  let ?idxs = "[0..<length (levels self)]"
  have a: "\<exists>e. forward self logits targets level_logits (Some level_targets) = Inl e"
  proof (cases "overall_loss self logits targets")
    case (Inl e)
    then show ?thesis by (simp add: forward_def)
  next
    case (Inr overall)
    from level_losses_all_ignored[OF wf ign, of level_logits ?idxs]
    show ?thesis
    proof
      assume "\<exists>e. level_losses level_logits (Some level_targets) ?idxs = Inl e"
      then show ?thesis using Inr w by (auto simp: forward_def)
    next
      assume "level_losses level_logits (Some level_targets) ?idxs = Inr []"
      then show ?thesis using Inr w by (simp add: forward_def stack_mean_def)
    qed
  qed
  have b: "forward self logits targets level_logits (Some level_targets) = Inl RuntimeError"
    if "overall_loss self logits targets = Inr overall" "level_logits = Some ll"
       "length (levels self) \<le> t2_cols ll" "length (levels self) \<le> t2_cols level_targets"
    for overall ll
  proof -
    have "\<forall>i \<in> set ?idxs. i < t2_cols ll \<and> i < t2_cols level_targets" using that(3,4) by auto
    from level_losses_all_ignored_shaped[OF wf ign this]
    show ?thesis using that(1,2) w by (simp add: forward_def stack_mean_def)
  qed
  show ?thesis using a b by blast
qed

theorem forward_all_ignored_levels_raises_witness:
  "forward demo_loss
     \<lparr>t3_dim1 = 1, t3_dim2 = 1, t3_rows = [[[[0, 0, 0]]]]\<rparr>
     \<lparr>t3_dim1 = 1, t3_dim2 = 1, t3_rows = [[[0]]]\<rparr>
     (Some \<lparr>t2_cols = 1, t2_rows = [[[0, 0, 0, 0, 0]]]\<rparr>)
     (Some \<lparr>t2_cols = 1, t2_rows = [[- 100]]\<rparr>) = Inl RuntimeError"
proof -
  have o: "overall_loss demo_loss \<lparr>t3_dim1 = 1, t3_dim2 = 1, t3_rows = [[[[0, 0, 0]]]]\<rparr>
             \<lparr>t3_dim1 = 1, t3_dim2 = 1, t3_rows = [[[0]]]\<rparr> = Inr (Some 1)"
    by (simp add: overall_loss_def demo_loss_def column3_def scale_out_def stack_mean_def
        mean_floats_def)
  show ?thesis
    using forward_all_ignored_levels_raises
      [of demo_loss "\<lparr>t2_cols = 1, t2_rows = [[- 100]]\<rparr>"
          "\<lparr>t3_dim1 = 1, t3_dim2 = 1, t3_rows = [[[[0, 0, 0]]]]\<rparr>"
          "\<lparr>t3_dim1 = 1, t3_dim2 = 1, t3_rows = [[[0]]]\<rparr>"
          "Some \<lparr>t2_cols = 1, t2_rows = [[[0, 0, 0, 0, 0]]]\<rparr>"] o
    by (simp add: demo_loss_def wf_tensor2_def)
qed

lemma map_of_dict_del: "map_of (dict_del d k) k' = (if k' = k then None else map_of d k')"
  unfolding dict_del_def by (induction d) auto

lemma map_of_dict_set: "map_of (dict_set d k v) k' = (if k' = k then Some v else map_of d k')"
proof (cases "k \<in> fst ` set d")
  case True
  have "map_of (map (\<lambda>(k', v'). if k' = k then (k, v) else (k', v')) d) k'
          = (if k' = k then (if map_of d k \<noteq> None then Some v else None) else map_of d k')"
    by (induction d) auto
  moreover have "map_of d k \<noteq> None" using True by (simp add: map_of_eq_None_iff)
  ultimately show ?thesis using True by (simp add: dict_set_def)
next
  case False
  then have "map_of d k = None" by (simp add: map_of_eq_None_iff)
  then show ?thesis using False by (auto simp: dict_set_def map_add_def split: option.splits)
qed

lemma retensor_other:
  assumes "k' \<noteq> key"
  shows "map_of (fst (retensor key d)) k' = map_of d k'"
  using assms unfolding retensor_def
  by (auto simp: map_of_dict_del map_of_dict_set split: option.splits sum.splits)

lemma retensor_key:
  assumes "map_of d key = Some w" "torch_tensor w = Inr t"
  shows "map_of (fst (retensor key d)) key = Some t"
  using assms unfolding retensor_def by (simp add: map_of_dict_set)

lemma rsna_init_fst:
  assumes "map_of d ''name'' = Some nm"
  shows "fst (rsna_init new_ce conds lvls d cw ow lw) =
     (if nm = PStr ''CrossEntropyLoss'' then fst (retensor ''weight'' (dict_del d ''name''))
      else if nm = PStr ''FocalLoss'' then fst (retensor ''alpha'' (dict_del d ''name''))
      else dict_del d ''name'')"
  using assms unfolding rsna_init_def Let_def
  by (auto split: prod.splits sum.splits)

lemma rsna_init_without_name:
  assumes "map_of d ''name'' = None"
  shows "rsna_init new_ce conds lvls d cw ow lw = (d, Inl KeyError)"
  using assms unfolding rsna_init_def Let_def by simp

lemma rsna_init_success_has_name:
  assumes "snd (rsna_init new_ce conds lvls d cw ow lw) = Inr obj"
  shows "map_of d ''name'' \<noteq> None"
proof
  assume "map_of d ''name'' = None"
  then have "snd (rsna_init new_ce conds lvls d cw ow lw) = Inl KeyError"
    by (simp add: rsna_init_without_name)
  then show False using assms by simp
qed

text \<open>
  Claim C10. Every call of the constructor that finds the key \<^verbatim>\<open>'name'\<close> (as every
  successful construction does, lemma \<open>rsna_init_success_has_name\<close>) leaves the caller's
  dictionary changed: \<^verbatim>\<open>'name'\<close> is removed; a \<^verbatim>\<open>'weight'\<close> (cross-entropy) or
  \<^verbatim>\<open>'alpha'\<close> (focal loss) entry is replaced by its tensor; and a second construction
  from the same dictionary raises \<^verbatim>\<open>KeyError\<close>.
\<close>

theorem rsna_init_mutates_ce_loss:
  assumes nm: "map_of d ''name'' = Some nm"
  shows "map_of (fst (rsna_init new_ce conds lvls d cw ow lw)) ''name'' = None \<and>
         fst (rsna_init new_ce conds lvls d cw ow lw) \<noteq> d \<and>
         rsna_init new_ce' conds' lvls' (fst (rsna_init new_ce conds lvls d cw ow lw)) cw' ow' lw'
           = (fst (rsna_init new_ce conds lvls d cw ow lw), Inl KeyError) \<and>
         (\<forall>w t. nm = PStr ''CrossEntropyLoss'' \<and> map_of d ''weight'' = Some w \<and>
                torch_tensor w = Inr t
                \<longrightarrow> map_of (fst (rsna_init new_ce conds lvls d cw ow lw)) ''weight'' = Some t) \<and>
         (\<forall>a t. nm = PStr ''FocalLoss'' \<and> map_of d ''alpha'' = Some a \<and>
                torch_tensor a = Inr t
                \<longrightarrow> map_of (fst (rsna_init new_ce conds lvls d cw ow lw)) ''alpha'' = Some t)"
proof -
  let ?d' = "fst (rsna_init new_ce conds lvls d cw ow lw)"
  note f = rsna_init_fst[OF nm, of new_ce conds lvls cw ow lw]
  have gone: "map_of ?d' ''name'' = None"
    unfolding f by (simp add: retensor_other map_of_dict_del)
  then have ne: "?d' \<noteq> d" using nm by auto
  have again: "rsna_init new_ce' conds' lvls' ?d' cw' ow' lw' = (?d', Inl KeyError)"
    by (rule rsna_init_without_name[OF gone])
  have wt: "map_of ?d' ''weight'' = Some t"
    if "nm = PStr ''CrossEntropyLoss''" "map_of d ''weight'' = Some w" "torch_tensor w = Inr t"
    for w t
  proof -
    have "map_of (dict_del d ''name'') ''weight'' = Some w"
      using that(2) by (simp add: map_of_dict_del)
    from retensor_key[OF this that(3)] show ?thesis unfolding f using that(1) by simp
  qed
  have al: "map_of ?d' ''alpha'' = Some t"
    if "nm = PStr ''FocalLoss''" "map_of d ''alpha'' = Some a" "torch_tensor a = Inr t"
    for a t
  proof -
    have "map_of (dict_del d ''name'') ''alpha'' = Some a"
      using that(2) by (simp add: map_of_dict_del)
    from retensor_key[OF this that(3)] show ?thesis unfolding f using that(1) by simp
  qed
  show ?thesis using gone ne again wt al by blast
qed

theorem rsna_init_mutates_ce_loss_witness:
  "fst (rsna_init (\<lambda>kw. Inr (\<lambda>x y. Inr (Scalar (Some 0)))) [''c''] [''any''] demo_ce_loss None 1 0)
     = [(''weight'', PTensor [1, 2, 4])] \<and>
   rsna_init (\<lambda>kw. Inr (\<lambda>x y. Inr (Scalar (Some 0)))) [''c''] [''any'']
     [(''weight'', PTensor [1, 2, 4])] None 1 0
     = ([(''weight'', PTensor [1, 2, 4])], Inl KeyError)"
proof -
  have n: "map_of demo_ce_loss ''name'' = Some (PStr ''CrossEntropyLoss'')"
    by (simp add: demo_ce_loss_def)
  have f: "fst (rsna_init (\<lambda>kw. Inr (\<lambda>x y. Inr (Scalar (Some 0)))) [''c''] [''any'']
                  demo_ce_loss None 1 0) = [(''weight'', PTensor [1, 2, 4])]"
    by (simp add: rsna_init_def demo_ce_loss_def dict_del_def retensor_def torch_tensor_def
        dict_set_def Let_def)
  show ?thesis
    using rsna_init_mutates_ce_loss
      [OF n, of "\<lambda>kw. Inr (\<lambda>x y. Inr (Scalar (Some 0)))" "[''c'']" "[''any'']" None 1 0
         "\<lambda>kw. Inr (\<lambda>x y. Inr (Scalar (Some 0)))" "[''c'']" "[''any'']" None 1 0]
    unfolding f by simp
qed

end
